(* ===== verification/Prelude.thy ===== *)
theory Prelude
  imports Main
begin

text \<open>
  Shared vocabulary of the development: the fact collections the component theories
  fill, and the generic list operations and lemmas they share (removing the element at
  an index, stripping a prefix or suffix of a list, counting the elements that satisfy
  a predicate).
\<close>

named_theorems model_simps "equations of the model that evaluate its operations"

subsection \<open>Removing the element at an index\<close>

text \<open>
  A task queue drops the entry it runs, wherever it is in the queue:
  \<open>remove_nth i xs\<close> is \<open>xs\<close> without its \<open>i\<close>-th element (unchanged when
  \<open>i\<close> is out of range).
\<close>

definition remove_nth :: "nat \<Rightarrow> 'a list \<Rightarrow> 'a list" where
  "remove_nth i xs = take i xs @ drop (Suc i) xs"

subsection \<open>Counting\<close>

definition count_where :: "('a \<Rightarrow> bool) \<Rightarrow> 'a list \<Rightarrow> nat" where
  "count_where P xs = length (filter P xs)"

subsection \<open>Lemmas\<close>

lemma length_remove_nth [simp]:
  "i < length xs \<Longrightarrow> length (remove_nth i xs) = length xs - 1"
  by (simp add: remove_nth_def)

lemma set_remove_nth_subset: "set (remove_nth i xs) \<subseteq> set xs"
  by (auto simp: remove_nth_def dest: in_set_takeD in_set_dropD)

lemma sorted_remove_nth: "sorted xs \<Longrightarrow> sorted (remove_nth i xs)"
proof -
  assume s: "sorted xs"
  have "sorted (take (Suc i) xs @ drop (Suc i) xs)" using s by simp
  then have a: "\<forall>x\<in>set (take (Suc i) xs). \<forall>y\<in>set (drop (Suc i) xs). x \<le> y"
    by (simp only: sorted_append) blast
  have "set (take i xs) \<subseteq> set (take (Suc i) xs)"
    by (simp add: set_take_subset_set_take)
  with a s show ?thesis
    by (auto simp: remove_nth_def sorted_append sorted_wrt_take sorted_wrt_drop)
qed

lemma map_remove_nth: "map f (remove_nth i xs) = remove_nth i (map f xs)"
  by (simp add: remove_nth_def take_map drop_map)

lemma count_where_append [simp]:
  "count_where P (xs @ ys) = count_where P xs + count_where P ys"
  by (simp add: count_where_def)

lemma count_where_Nil [simp]: "count_where P [] = 0"
  by (simp add: count_where_def)

lemma count_where_Cons [simp]:
  "count_where P (x # xs) = (if P x then Suc (count_where P xs) else count_where P xs)"
  by (simp add: count_where_def)

lemma count_where_remove_nth:
  "i < length xs \<Longrightarrow>
   count_where P (remove_nth i xs) + (if P (xs ! i) then 1 else 0) = count_where P xs"
proof -
  assume i: "i < length xs"
  then have "xs = take i xs @ xs ! i # drop (Suc i) xs"
    by (simp add: id_take_nth_drop)
  then have "count_where P xs = count_where P (take i xs @ xs ! i # drop (Suc i) xs)"
    by simp
  then show ?thesis
    by (simp add: remove_nth_def)
qed

end
