(* ===== verification/Values.thy ===== *)
theory Values
  imports Prelude
begin

text \<open>
  The JavaScript values the program passes around: action payloads are object literals
  (\<open>{ delta: 1 }\<close>, \<open>{ params, result }\<close>), exceptions are whatever a \<open>throw\<close>
  or a rejected promise carries, and a \<open>catch\<close> block reads \<open>e.message\<close> from
  them. Numbers are modelled as \<open>int\<close>: every number of this program (deltas, story
  identifiers, counts) is an integer well inside the range a double represents exactly.
  Property access and \<open>Array.prototype.slice\<close> follow the ECMAScript rules for the
  cases the program reaches.
\<close>

datatype jval =
    JUndefined
  | JNull
  | JBool bool
  | JNum int
  | JStr string
  | JArr "jval list"
  | JObj "(string \<times> jval) list"

text \<open>
  An exception is either an \<open>Error\<close> object (its constructor name and message) or
  an arbitrary thrown value (\<open>throw "x"\<close>, \<open>Promise.reject()\<close>).
\<close>

datatype exn =
    JsError string string
  | Thrown jval

definition type_error_reading :: "string \<Rightarrow> string \<Rightarrow> exn" where
  "type_error_reading v k = JsError ''TypeError'' (''Cannot read properties of '' @ v @ '' (reading '' @ k @ '')'')"

abbreviation type_error :: "string \<Rightarrow> exn" where
  "type_error k \<equiv> type_error_reading ''undefined'' k"

text \<open>The value a \<open>catch (e)\<close> binds to \<open>e\<close>.\<close>

fun exn_value :: "exn \<Rightarrow> jval" where
  "exn_value (JsError n m) = JObj [(''name'', JStr n), (''message'', JStr m)]"
| "exn_value (Thrown v) = v"

text \<open>
  Property access \<open>v.k\<close>: reading a property of \<open>undefined\<close> or \<open>null\<close> throws a
  \<open>TypeError\<close>; an object yields its own property or \<open>undefined\<close>; arrays and
  strings have a \<open>length\<close>; no other property the program reads exists on primitives.
\<close>

fun get_property :: "jval \<Rightarrow> string \<Rightarrow> exn + jval" where
  "get_property JUndefined k = Inl (type_error k)"
| "get_property JNull k = Inl (type_error_reading ''null'' k)"
| "get_property (JObj fs) k = Inr (case map_of fs k of None \<Rightarrow> JUndefined | Some v \<Rightarrow> v)"
| "get_property (JArr vs) k = Inr (if k = ''length'' then JNum (int (length vs)) else JUndefined)"
| "get_property (JStr s) k = Inr (if k = ''length'' then JNum (int (length s)) else JUndefined)"
| "get_property (JBool b) k = Inr JUndefined"
| "get_property (JNum n) k = Inr JUndefined"

text \<open>\<open>e.message\<close> in a \<open>catch\<close> block.\<close>

definition exn_message :: "exn \<Rightarrow> exn + jval" where
  "exn_message e = get_property (exn_value e) ''message''"

text \<open>
  \<open>Array.prototype.slice(start, end)\<close>: a negative index counts from the end, and both
  indices are clamped to \<open>[0, length]\<close>.
\<close>

definition slice_index :: "int \<Rightarrow> nat \<Rightarrow> nat" where
  "slice_index r len = (if r < 0 then nat (max (int len + r) 0) else nat (min r (int len)))"

definition array_slice :: "'a list \<Rightarrow> int \<Rightarrow> int \<Rightarrow> 'a list" where
  "array_slice xs s e =
     (let k = slice_index s (length xs); f = slice_index e (length xs)
      in take (f - k) (drop k xs))"

subsection \<open>Lemmas\<close>

lemma exn_message_JsError [simp, model_simps]: "exn_message (JsError n m) = Inr (JStr m)"
  by (simp add: exn_message_def)

lemma exn_message_undefined [simp, model_simps]:
  "exn_message (Thrown JUndefined) = Inl (type_error ''message'')"
  by (simp add: exn_message_def)

lemma array_slice_0 [simp]:
  "0 \<le> n \<Longrightarrow> array_slice xs 0 n = take (nat n) xs"
  by (simp add: array_slice_def slice_index_def min_def take_all)

lemma length_array_slice_0:
  "0 \<le> n \<Longrightarrow> length (array_slice xs 0 n) = min (nat n) (length xs)"
  by simp

end
