(* ===== verification/Actions.thy ===== *)
theory Actions
  imports Values
begin

text \<open>
  Action descriptors and the action creators of the store modules
  (\<open>store/counter/actions\<close>, \<open>store/stories/actions\<close>, not part of the sources
  here; modelled from the specification, sections 3 and 4.1). A descriptor has a kind
  and a payload. A plain creator (\<open>increment\<close>, \<open>decrement\<close>) has one kind; the
  async factory \<open>create name\<close> returns the three creators \<open>started\<close>,
  \<open>done\<close>, \<open>failed\<close> of one logical operation, whose kinds share the operation name
  as correlation key. A kind is rendered as the descriptor's \<open>type\<close> string
  \<open><operation>/started\<close> and so on (the format of the specification's example).
\<close>

datatype phase = Started | Done | Failed

datatype kind = Plain string | Async string phase

record action =
  act_kind :: kind
  act_payload :: jval

text \<open>The three creators of one logical operation.\<close>

record async_creators =
  ac_started :: "jval \<Rightarrow> action"
  ac_done :: "jval \<Rightarrow> action"
  ac_failed :: "jval \<Rightarrow> action"

definition action_creator :: "string \<Rightarrow> jval \<Rightarrow> action" where
  "action_creator name p = \<lparr>act_kind = Plain name, act_payload = p\<rparr>"

definition async_action :: "string \<Rightarrow> phase \<Rightarrow> jval \<Rightarrow> action" where
  "async_action name ph p = \<lparr>act_kind = Async name ph, act_payload = p\<rparr>"

definition create :: "string \<Rightarrow> async_creators" where
  "create name =
     \<lparr>ac_started = async_action name Started,
      ac_done = async_action name Done,
      ac_failed = async_action name Failed\<rparr>"

subsection \<open>The creators the page imports\<close>

definition increment_ac :: "jval \<Rightarrow> action" where
  "increment_ac = action_creator ''increment''"

definition decrement_ac :: "jval \<Rightarrow> action" where
  "decrement_ac = action_creator ''decrement''"

definition incrementAsync_ac :: async_creators where
  "incrementAsync_ac = create ''incrementAsync''"

definition decrementAsync_ac :: async_creators where
  "decrementAsync_ac = create ''decrementAsync''"

definition fetchStory_ac :: async_creators where
  "fetchStory_ac = create ''fetchStory''"

definition fetchTopStories_ac :: async_creators where
  "fetchTopStories_ac = create ''fetchTopStories''"

subsection \<open>Kinds as type strings\<close>



text \<open>Counting the descriptors of one kind in a sequence of dispatched actions.\<close>

definition kind_count :: "kind \<Rightarrow> action list \<Rightarrow> nat" where
  "kind_count k as = count_where (\<lambda>a. act_kind a = k) as"

subsection \<open>Lemmas\<close>

lemma creators_kind [simp, model_simps]:
  "act_kind (ac_started (create n) p) = Async n Started"
  "act_kind (ac_done (create n) p) = Async n Done"
  "act_kind (ac_failed (create n) p) = Async n Failed"
  "act_payload (ac_started (create n) p) = p"
  "act_payload (ac_done (create n) p) = p"
  "act_payload (ac_failed (create n) p) = p"
  by (simp_all add: create_def async_action_def)

lemma plain_kind [simp, model_simps]:
  "act_kind (increment_ac p) = Plain ''increment''"
  "act_kind (decrement_ac p) = Plain ''decrement''"
  "act_payload (increment_ac p) = p"
  "act_payload (decrement_ac p) = p"
  by (simp_all add: increment_ac_def decrement_ac_def action_creator_def)

lemmas creator_defs [model_simps] =
  incrementAsync_ac_def decrementAsync_ac_def fetchStory_ac_def fetchTopStories_ac_def

lemma kind_count_append [simp]:
  "kind_count k (xs @ ys) = kind_count k xs + kind_count k ys"
  by (simp add: kind_count_def)

lemma kind_count_Nil [simp]: "kind_count k [] = 0"
  by (simp add: kind_count_def)

lemma kind_count_single [simp]:
  "kind_count k [a] = (if act_kind a = k then 1 else 0)"
  by (simp add: kind_count_def)

subsection \<open>The descriptors the page dispatches are told apart\<close>


end
