(* ===== verification/Store.thy ===== *)
theory Store
  imports Actions
begin

text \<open>
  The store the page's dispatcher writes to (the Redux store built by
  \<open>initializeStore\<close>, outside the sources; modelled from the specification, sections
  4.2 and 6). Its state is the current snapshot and the subscribed listeners; the
  field \<open>st_log\<close> is a ghost that records every action the reducer applied, in order,
  so that properties about the sequence of dispatches can be stated.
  \<open>store_dispatch\<close> runs the reducer on the snapshot and then every listener in
  subscription order. A reducer that throws (an action it does not know: the
  specification's protocol violation) leaves the store as it was; a listener that throws
  ends the notification, and the exception reaches the caller of \<open>dispatch\<close> after the
  new snapshot has been installed.
\<close>

type_synonym 's reducer = "'s \<Rightarrow> action \<Rightarrow> exn + 's"
type_synonym 's listener = "'s \<Rightarrow> exn option"

record 's store =
  st_state :: 's
  st_log :: "action list"
  st_listeners :: "(nat \<times> 's listener) list"
  st_next_id :: nat

definition create_store :: "'s \<Rightarrow> 's store" where
  "create_store s0 = \<lparr>st_state = s0, st_log = [], st_listeners = [], st_next_id = 0\<rparr>"

definition get_state :: "'s store \<Rightarrow> 's" where
  "get_state st = st_state st"

fun notify :: "(nat \<times> 's listener) list \<Rightarrow> 's \<Rightarrow> exn option" where
  "notify [] s = None"
| "notify ((i, l) # ls) s = (case l s of Some e \<Rightarrow> Some e | None \<Rightarrow> notify ls s)"

definition store_dispatch :: "'s reducer \<Rightarrow> action \<Rightarrow> 's store \<Rightarrow> exn option \<times> 's store" where
  "store_dispatch R a st =
     (case R (st_state st) a of
        Inl e \<Rightarrow> (Some e, st)
      | Inr s' \<Rightarrow> (notify (st_listeners st) s', st\<lparr>st_state := s', st_log := st_log st @ [a]\<rparr>))"

definition subscribe :: "'s listener \<Rightarrow> 's store \<Rightarrow> nat \<times> 's store" where
  "subscribe l st =
     (st_next_id st,
      st\<lparr>st_listeners := st_listeners st @ [(st_next_id st, l)], st_next_id := Suc (st_next_id st)\<rparr>)"

definition unsubscribe :: "nat \<Rightarrow> 's store \<Rightarrow> 's store" where
  "unsubscribe i st = st\<lparr>st_listeners := filter (\<lambda>(j, _). j \<noteq> i) (st_listeners st)\<rparr>"

subsection \<open>Well-behaved reducers and listeners\<close>

text \<open>
  A total reducer never throws: it is a pure function of the snapshot and the action.
  Quiet listeners never throw. The lifecycle guarantees of the specification hold for
  stores of this kind; what the page does when they fail is stated separately.
\<close>

definition pure_reducer :: "('s \<Rightarrow> action \<Rightarrow> 's) \<Rightarrow> 's reducer" where
  "pure_reducer r = (\<lambda>s a. Inr (r s a))"

definition listeners_quiet :: "(nat \<times> 's listener) list \<Rightarrow> bool" where
  "listeners_quiet ls \<longleftrightarrow> (\<forall>il \<in> set ls. \<forall>s. snd il s = None)"

definition ids_fresh :: "'s store \<Rightarrow> bool" where
  "ids_fresh st \<longleftrightarrow> (\<forall>il \<in> set (st_listeners st). fst il < st_next_id st)"

subsection \<open>Lemmas\<close>

lemma notify_quiet [simp]: "listeners_quiet ls \<Longrightarrow> notify ls s = None"
  by (induction ls) (auto simp: listeners_quiet_def)

lemma listeners_quiet_filter [intro]: "listeners_quiet ls \<Longrightarrow> listeners_quiet (filter P ls)"
  by (auto simp: listeners_quiet_def)

lemma store_dispatch_pure [model_simps]:
  "store_dispatch (pure_reducer r) a st =
     (notify (st_listeners st) (r (st_state st) a),
      st\<lparr>st_state := r (st_state st) a, st_log := st_log st @ [a]\<rparr>)"
  by (simp add: store_dispatch_def pure_reducer_def)

lemma store_dispatch_listeners [simp]:
  "st_listeners (snd (store_dispatch R a st)) = st_listeners st"
  by (simp add: store_dispatch_def split: sum.split)

lemma store_dispatch_log:
  "st_log (snd (store_dispatch R a st)) = st_log st \<or>
   st_log (snd (store_dispatch R a st)) = st_log st @ [a]"
  by (simp add: store_dispatch_def split: sum.split)

lemma ids_fresh_subscribe: "ids_fresh st \<Longrightarrow> ids_fresh (snd (subscribe l st))"
  by (auto simp: ids_fresh_def subscribe_def)

lemma ids_fresh_unsubscribe: "ids_fresh st \<Longrightarrow> ids_fresh (unsubscribe i st)"
  by (auto simp: ids_fresh_def unsubscribe_def)

lemma ids_fresh_dispatch: "ids_fresh st \<Longrightarrow> ids_fresh (snd (store_dispatch R a st))"
  by (simp add: ids_fresh_def store_dispatch_def split: sum.split)

subsection \<open>Ordering and subscription\<close>

text \<open>
  Two dispatches in a row on a store with a total reducer and quiet listeners both
  return normally and are both applied, in call order: the snapshot is the reducer
  applied to the first action and then to the second, and the log records both; neither
  update is lost.
\<close>

lemma store_dispatch_sequential:
  assumes "listeners_quiet (st_listeners st)"
  shows "fst (store_dispatch (pure_reducer r) a1 st) = None \<and>
         store_dispatch (pure_reducer r) a2 (snd (store_dispatch (pure_reducer r) a1 st)) =
           (None, st\<lparr>st_state := r (r (st_state st) a1) a2, st_log := st_log st @ [a1, a2]\<rparr>)"
  using assms by (simp add: store_dispatch_pure)

text \<open>
  On a store whose listener identifiers are fresh (every subscription so far got an
  identifier below the counter, which creating the store, subscribing, unsubscribing and
  dispatching all keep), unsubscribing with the identifier \<open>subscribe\<close> returned
  restores exactly the listeners there were before.
\<close>

lemma unsubscribe_subscribe:
  assumes "ids_fresh st"
  shows "st_listeners (unsubscribe (fst (subscribe l st)) (snd (subscribe l st))) = st_listeners st"
proof -
  have "\<forall>il \<in> set (st_listeners st). fst il \<noteq> st_next_id st"
    using assms by (auto simp: ids_fresh_def)
  then show ?thesis
    by (simp add: subscribe_def unsubscribe_def split_def filter_id_conv)
qed

end
