(* ===== verification/Runtime.thy ===== *)
theory Runtime
  imports Store
begin

text \<open>
  The host the page runs on: one store, a clock, the timers armed by \<open>setTimeout\<close>
  and the promises an \<open>async\<close> function is suspended on. The host's scheduler is
  outside the sources; it is modelled after the specification (sections 5 and 9): a timer
  is a task with a fire time and no cancellation, and timers fire in the order of their
  fire times, earlier-armed first among equal times, as the HTML timer rules say.
  Callbacks and continuations are defunctionalised: a timer holds the data its arrow
  function captured (\<open>callback\<close>), an awaiting function the call it awaits and the
  variables its rest needs (\<open>pending\<close>); the page's theory gives them their code.
  Exceptions that nobody catches (a throwing timer callback, a rejected promise nobody
  awaits) are collected in \<open>uncaught\<close>.
\<close>

datatype callback =
    IncrementAsyncDone jval
  | DecrementAsyncDone jval

datatype pending =
    AwaitStory int
  | AwaitTopIds

datatype 'a outcome = Resolved 'a | Rejected exn

record 's sys =
  sys_store :: "'s store"
  clock :: nat
  timers :: "(nat \<times> callback) list"
  awaits :: "pending list"
  uncaught :: "exn list"

definition init_sys :: "'s store \<Rightarrow> 's sys" where
  "init_sys st = \<lparr>sys_store = st, clock = 0, timers = [], awaits = [], uncaught = []\<rparr>"

abbreviation sys_log :: "'s sys \<Rightarrow> action list" where
  "sys_log s \<equiv> st_log (sys_store s)"

text \<open>\<open>store.dispatch\<close>, seen from the host.\<close>

definition sys_dispatch :: "'s reducer \<Rightarrow> action \<Rightarrow> 's sys \<Rightarrow> exn option \<times> 's sys" where
  "sys_dispatch R a s =
     (let (r, st) = store_dispatch R a (sys_store s) in (r, s\<lparr>sys_store := st\<rparr>))"

text \<open>
  \<open>setTimeout(cb, delay)\<close> arms a timer for \<open>clock + delay\<close>. The result type leaves
  room for a synchronous fault; the host's \<open>setTimeout\<close> with a function argument
  never raises one.
\<close>

definition set_timeout :: "nat \<Rightarrow> callback \<Rightarrow> 's sys \<Rightarrow> exn + 's sys" where
  "set_timeout delay cb s = Inr (s\<lparr>timers := timers s @ [(clock s + delay, cb)]\<rparr>)"

definition await_call :: "pending \<Rightarrow> 's sys \<Rightarrow> 's sys" where
  "await_call p s = s\<lparr>awaits := awaits s @ [p]\<rparr>"

definition record_uncaught :: "exn option \<times> 's sys \<Rightarrow> 's sys" where
  "record_uncaught rs =
     (case rs of (None, s) \<Rightarrow> s | (Some e, s) \<Rightarrow> s\<lparr>uncaught := uncaught s @ [e]\<rparr>)"

text \<open>The host state after a total reducer \<open>r\<close> applied action \<open>a\<close>.\<close>

definition sys_apply :: "('s \<Rightarrow> action \<Rightarrow> 's) \<Rightarrow> action \<Rightarrow> 's sys \<Rightarrow> 's sys" where
  "sys_apply r a s =
     s\<lparr>sys_store := (sys_store s)\<lparr>st_state := r (st_state (sys_store s)) a,
                                   st_log := sys_log s @ [a]\<rparr>\<rparr>"

abbreviation quiet :: "'s sys \<Rightarrow> bool" where
  "quiet s \<equiv> listeners_quiet (st_listeners (sys_store s))"

subsection \<open>Which timer fires next\<close>

text \<open>
  The index of the timer with the least fire time, the first one among equal times.
\<close>

fun earliest_timer :: "(nat \<times> 'a) list \<Rightarrow> nat option" where
  "earliest_timer [] = None"
| "earliest_timer ((t, c) # ts) =
     (case earliest_timer ts of
        None \<Rightarrow> Some 0
      | Some j \<Rightarrow> if fst (ts ! j) < t then Some (Suc j) else Some 0)"

definition due_timer :: "'s sys \<Rightarrow> nat option" where
  "due_timer s =
     (case earliest_timer (timers s) of
        None \<Rightarrow> None
      | Some i \<Rightarrow> if fst (timers s ! i) \<le> clock s then Some i else None)"

subsection \<open>Lemmas\<close>

lemma sys_dispatch_eq:
  "sys_dispatch R a s =
     (fst (store_dispatch R a (sys_store s)), s\<lparr>sys_store := snd (store_dispatch R a (sys_store s))\<rparr>)"
  by (simp add: sys_dispatch_def split_def Let_def)

lemma sys_dispatch_fields [simp]:
  "clock (snd (sys_dispatch R a s)) = clock s"
  "timers (snd (sys_dispatch R a s)) = timers s"
  "awaits (snd (sys_dispatch R a s)) = awaits s"
  "uncaught (snd (sys_dispatch R a s)) = uncaught s"
  "st_listeners (sys_store (snd (sys_dispatch R a s))) = st_listeners (sys_store s)"
  by (simp_all add: sys_dispatch_eq)

lemma sys_dispatch_pure [model_simps]:
  "sys_dispatch (pure_reducer r) a s =
     (notify (st_listeners (sys_store s)) (r (st_state (sys_store s)) a),
      s\<lparr>sys_store := (sys_store s)\<lparr>st_state := r (st_state (sys_store s)) a,
                                    st_log := sys_log s @ [a]\<rparr>\<rparr>)"
  by (simp add: sys_dispatch_eq store_dispatch_pure)

lemma sys_dispatch_clean [simp]:
  "quiet s \<Longrightarrow> sys_dispatch (pure_reducer r) a s = (None, sys_apply r a s)"
  by (simp add: sys_dispatch_pure sys_apply_def)

lemma sys_apply_fields [simp]:
  "clock (sys_apply r a s) = clock s"
  "timers (sys_apply r a s) = timers s"
  "awaits (sys_apply r a s) = awaits s"
  "uncaught (sys_apply r a s) = uncaught s"
  "st_listeners (sys_store (sys_apply r a s)) = st_listeners (sys_store s)"
  "sys_log (sys_apply r a s) = sys_log s @ [a]"
  by (simp_all add: sys_apply_def)

lemma await_call_fields [simp]:
  "clock (await_call p s) = clock s"
  "timers (await_call p s) = timers s"
  "awaits (await_call p s) = awaits s @ [p]"
  "uncaught (await_call p s) = uncaught s"
  "sys_store (await_call p s) = sys_store s"
  by (simp_all add: await_call_def)

lemma earliest_timer_None_iff [simp]: "earliest_timer ts = None \<longleftrightarrow> ts = []"
  by (cases ts rule: earliest_timer.cases) (auto split: option.split)

lemma earliest_timer_bound: "earliest_timer ts = Some i \<Longrightarrow> i < length ts"
  by (induction ts arbitrary: i rule: earliest_timer.induct)
    (auto split: option.splits if_splits)

text \<open>The chosen timer is due no later than any other, and strictly earlier than each
  timer armed before it.\<close>

lemma earliest_timer_least:
  "earliest_timer ts = Some i \<Longrightarrow> j < length ts \<Longrightarrow> fst (ts ! i) \<le> fst (ts ! j)"
proof (induction ts arbitrary: i j rule: earliest_timer.induct)
  case 1
  then show ?case by simp
next
  case (2 t c ts)
  show ?case
  proof (cases "earliest_timer ts")
    case None
    with "2.prems" show ?thesis by simp
  next
    case (Some k)
    have IH: "j' < length ts \<Longrightarrow> fst (ts ! k) \<le> fst (ts ! j')" for j'
      using "2.IH" Some by blast
    show ?thesis
    proof (cases "fst (ts ! k) < t")
      case True
      with Some "2.prems" IH show ?thesis
        by (cases j) (auto simp: less_imp_le)
    next
      case False
      with Some "2.prems" IH show ?thesis
        by (cases j) (auto simp: not_less intro: order_trans)
    qed
  qed
qed

lemma earliest_timer_first:
  "earliest_timer ts = Some i \<Longrightarrow> j < i \<Longrightarrow> fst (ts ! i) < fst (ts ! j)"
proof (induction ts arbitrary: i j rule: earliest_timer.induct)
  case 1
  then show ?case by simp
next
  case (2 t c ts)
  show ?case
  proof (cases "earliest_timer ts")
    case None
    with "2.prems" show ?thesis by simp
  next
    case (Some k)
    with "2.prems" "2.IH" show ?thesis
      by (cases j) (auto split: if_splits)
  qed
qed

lemma earliest_timer_sorted:
  "sorted (map fst ts) \<Longrightarrow> ts \<noteq> [] \<Longrightarrow> earliest_timer ts = Some 0"
proof (induction ts rule: earliest_timer.induct)
  case 1
  then show ?case by simp
next
  case (2 t c ts)
  show ?case
  proof (cases "earliest_timer ts")
    case None
    then show ?thesis by simp
  next
    case (Some j)
    then have "j < length ts" by (rule earliest_timer_bound)
    then have "ts ! j \<in> set ts" by simp
    with "2.prems"(1) have "t \<le> fst (ts ! j)" by simp
    with Some show ?thesis by simp
  qed
qed

end
