(* ===== verification/Dispatcher.thy ===== *)
theory Dispatcher
  imports Runtime
begin

text \<open>
  The class \<open>ReduxActionDispatcher\<close> of \<open>src/pages/redux.tsx\<close> (lines 12 to 86):
  the object holds the \<open>dispatch\<close> function it was built with, and each method
  dispatches actions through it. A method takes the host state and returns it updated,
  with the exception it throws synchronously (a plain method) or the rejection of the
  promise it returns while still running synchronously (an \<open>async\<close> method).
  \<^item> \<open>increment\<close>, \<open>decrement\<close>: one plain dispatch;
  \<^item> \<open>incrementAsync\<close>, \<open>decrementAsync\<close>: dispatch \<open>started\<close>, then arm a
    1000 ms timer inside a \<open>try\<close> whose \<open>catch\<close> dispatches \<open>failed\<close>; the
    timer's callback (\<open>..._timeout\<close>) dispatches \<open>done\<close> outside any \<open>try\<close>;
  \<^item> \<open>fetchStoryAsync\<close>: dispatch \<open>started\<close> and await \<open>API.fetchStory\<close>; its
    continuation (\<open>fetchStory_resume\<close>) dispatches \<open>done\<close> inside the \<open>try\<close>, and
    the \<open>catch\<close> (\<open>fetchStory_catch\<close>) reads \<open>e.message\<close> and dispatches
    \<open>failed\<close>.
  The constructor's \<open>bind\<close> calls only fix \<open>this\<close> for detached calls and have no
  counterpart here.
\<close>

type_synonym 's dispatch_fn = "action \<Rightarrow> 's sys \<Rightarrow> exn option \<times> 's sys"

record 's ReduxActionDispatcher =
  dispatch :: "'s dispatch_fn"

definition new_ReduxActionDispatcher :: "'s dispatch_fn \<Rightarrow> 's ReduxActionDispatcher" where
  "new_ReduxActionDispatcher d = \<lparr>dispatch = d\<rparr>"

definition increment :: "'s ReduxActionDispatcher \<Rightarrow> int \<Rightarrow> 's sys \<Rightarrow> exn option \<times> 's sys" where
  "increment this delta s = dispatch this (increment_ac (JObj [(''delta'', JNum delta)])) s"

definition decrement :: "'s ReduxActionDispatcher \<Rightarrow> int \<Rightarrow> 's sys \<Rightarrow> exn option \<times> 's sys" where
  "decrement this delta s = dispatch this (decrement_ac (JObj [(''delta'', JNum delta)])) s"

definition incrementAsync :: "'s ReduxActionDispatcher \<Rightarrow> 's sys \<Rightarrow> exn option \<times> 's sys" where
  "incrementAsync this s =
     (let params = JObj [(''delta'', JNum 1)] in
      case dispatch this (ac_started incrementAsync_ac params) s of
        (Some e, s1) \<Rightarrow> (Some e, s1)
      | (None, s1) \<Rightarrow>
          (case set_timeout 1000 (IncrementAsyncDone params) s1 of
             Inr s2 \<Rightarrow> (None, s2)
           | Inl e \<Rightarrow>
               (case exn_message e of
                  Inl e' \<Rightarrow> (Some e', s1)
                | Inr m \<Rightarrow>
                    dispatch this
                      (ac_failed incrementAsync_ac (JObj [(''params'', params), (''error'', m)])) s1)))"

definition incrementAsync_timeout :: "'s ReduxActionDispatcher \<Rightarrow> jval \<Rightarrow> 's sys \<Rightarrow> exn option \<times> 's sys" where
  "incrementAsync_timeout this params s =
     (case get_property params ''delta'' of
        Inl e \<Rightarrow> (Some e, s)
      | Inr d \<Rightarrow>
          dispatch this (ac_done incrementAsync_ac (JObj [(''params'', params), (''result'', d)])) s)"

definition decrementAsync :: "'s ReduxActionDispatcher \<Rightarrow> 's sys \<Rightarrow> exn option \<times> 's sys" where
  "decrementAsync this s =
     (let params = JObj [(''delta'', JNum 1)] in
      case dispatch this (ac_started decrementAsync_ac params) s of
        (Some e, s1) \<Rightarrow> (Some e, s1)
      | (None, s1) \<Rightarrow>
          (case set_timeout 1000 (DecrementAsyncDone params) s1 of
             Inr s2 \<Rightarrow> (None, s2)
           | Inl e \<Rightarrow>
               (case exn_message e of
                  Inl e' \<Rightarrow> (Some e', s1)
                | Inr m \<Rightarrow>
                    dispatch this
                      (ac_failed decrementAsync_ac (JObj [(''params'', params), (''error'', m)])) s1)))"

definition decrementAsync_timeout :: "'s ReduxActionDispatcher \<Rightarrow> jval \<Rightarrow> 's sys \<Rightarrow> exn option \<times> 's sys" where
  "decrementAsync_timeout this params s =
     (case get_property params ''delta'' of
        Inl e \<Rightarrow> (Some e, s)
      | Inr d \<Rightarrow>
          dispatch this (ac_done decrementAsync_ac (JObj [(''params'', params), (''result'', d)])) s)"

definition fetchStoryAsync :: "'s ReduxActionDispatcher \<Rightarrow> int \<Rightarrow> 's sys \<Rightarrow> exn option \<times> 's sys" where
  "fetchStoryAsync this sid s =
     (case dispatch this (ac_started fetchStory_ac (JNum sid)) s of
        (Some e, s1) \<Rightarrow> (Some e, s1)
      | (None, s1) \<Rightarrow> (None, await_call (AwaitStory sid) s1))"

definition fetchStory_catch :: "'s ReduxActionDispatcher \<Rightarrow> int \<Rightarrow> exn \<Rightarrow> 's sys \<Rightarrow> exn option \<times> 's sys" where
  "fetchStory_catch this sid e s =
     (case exn_message e of
        Inl e' \<Rightarrow> (Some e', s)
      | Inr m \<Rightarrow> dispatch this (ac_failed fetchStory_ac (JObj [(''params'', JNum sid), (''error'', m)])) s)"

definition fetchStory_resume ::
  "'s ReduxActionDispatcher \<Rightarrow> int \<Rightarrow> jval outcome \<Rightarrow> 's sys \<Rightarrow> exn option \<times> 's sys" where
  "fetchStory_resume this sid r s =
     (case r of
        Rejected e \<Rightarrow> fetchStory_catch this sid e s
      | Resolved story \<Rightarrow>
          (case dispatch this (ac_done fetchStory_ac (JObj [(''params'', JNum sid), (''result'', story)])) s of
             (None, s1) \<Rightarrow> (None, s1)
           | (Some e, s1) \<Rightarrow> fetchStory_catch this sid e s1))"

text \<open>The code of a fired timer.\<close>

fun run_callback :: "'s ReduxActionDispatcher \<Rightarrow> callback \<Rightarrow> 's sys \<Rightarrow> exn option \<times> 's sys" where
  "run_callback this (IncrementAsyncDone p) s = incrementAsync_timeout this p s"
| "run_callback this (DecrementAsyncDone p) s = decrementAsync_timeout this p s"

subsection \<open>The methods on a well-behaved store\<close>

text \<open>
  The dispatcher the page builds over a store whose reducer is total and whose listeners
  are quiet: each dispatch returns normally and appends its action to the log.
\<close>

abbreviation host_dispatcher :: "'s reducer \<Rightarrow> 's ReduxActionDispatcher" where
  "host_dispatcher R \<equiv> new_ReduxActionDispatcher (sys_dispatch R)"

abbreviation store_dispatcher :: "('s \<Rightarrow> action \<Rightarrow> 's) \<Rightarrow> 's ReduxActionDispatcher" where
  "store_dispatcher r \<equiv> new_ReduxActionDispatcher (sys_dispatch (pure_reducer r))"

abbreviation delta_one :: jval where
  "delta_one \<equiv> JObj [(''delta'', JNum 1)]"

lemma dispatch_new [simp]: "dispatch (new_ReduxActionDispatcher d) = d"
  by (simp add: new_ReduxActionDispatcher_def)

text \<open>
  Frame: over the store's own \<open>dispatch\<close>, whatever its reducer and listeners do, a
  timer callback and the continuation of \<open>fetchStoryAsync\<close> touch neither the clock,
  nor the timers, nor the pending calls.
\<close>

lemma run_callback_frame:
  "clock (snd (run_callback (new_ReduxActionDispatcher (sys_dispatch R)) cb s)) = clock s \<and>
   timers (snd (run_callback (new_ReduxActionDispatcher (sys_dispatch R)) cb s)) = timers s \<and>
   awaits (snd (run_callback (new_ReduxActionDispatcher (sys_dispatch R)) cb s)) = awaits s"
  by (cases cb) (simp_all add: incrementAsync_timeout_def decrementAsync_timeout_def split: sum.split)

lemma run_call_method_timers:
  shows "clock (snd (incrementAsync (host_dispatcher R) s)) = clock s \<and>
         (timers (snd (incrementAsync (host_dispatcher R) s)) = timers s \<or>
          timers (snd (incrementAsync (host_dispatcher R) s)) = timers s @ [(clock s + 1000, IncrementAsyncDone delta_one)])"
    and "clock (snd (decrementAsync (host_dispatcher R) s)) = clock s \<and>
         (timers (snd (decrementAsync (host_dispatcher R) s)) = timers s \<or>
          timers (snd (decrementAsync (host_dispatcher R) s)) = timers s @ [(clock s + 1000, DecrementAsyncDone delta_one)])"
    and "clock (snd (fetchStoryAsync (host_dispatcher R) sid s)) = clock s \<and> timers (snd (fetchStoryAsync (host_dispatcher R) sid s)) = timers s"
    and "clock (snd (increment (host_dispatcher R) d s)) = clock s \<and> timers (snd (increment (host_dispatcher R) d s)) = timers s"
    and "clock (snd (decrement (host_dispatcher R) d s)) = clock s \<and> timers (snd (decrement (host_dispatcher R) d s)) = timers s"
proof -
  show "clock (snd (incrementAsync (host_dispatcher R) s)) = clock s \<and>
         (timers (snd (incrementAsync (host_dispatcher R) s)) = timers s \<or>
          timers (snd (incrementAsync (host_dispatcher R) s)) = timers s @ [(clock s + 1000, IncrementAsyncDone delta_one)])"
    by (simp add: incrementAsync_def set_timeout_def Let_def sys_dispatch_eq split: option.split)
  show "clock (snd (decrementAsync (host_dispatcher R) s)) = clock s \<and>
         (timers (snd (decrementAsync (host_dispatcher R) s)) = timers s \<or>
          timers (snd (decrementAsync (host_dispatcher R) s)) = timers s @ [(clock s + 1000, DecrementAsyncDone delta_one)])"
    by (simp add: decrementAsync_def set_timeout_def Let_def sys_dispatch_eq split: option.split)
  show "clock (snd (fetchStoryAsync (host_dispatcher R) sid s)) = clock s \<and> timers (snd (fetchStoryAsync (host_dispatcher R) sid s)) = timers s"
    by (simp add: fetchStoryAsync_def sys_dispatch_eq split: option.split)
  show "clock (snd (increment (host_dispatcher R) d s)) = clock s \<and> timers (snd (increment (host_dispatcher R) d s)) = timers s"
    by (simp add: increment_def)
  show "clock (snd (decrement (host_dispatcher R) d s)) = clock s \<and> timers (snd (decrement (host_dispatcher R) d s)) = timers s"
    by (simp add: decrement_def)
qed

lemma fetchStory_catch_frame:
  "clock (snd (fetchStory_catch (new_ReduxActionDispatcher (sys_dispatch R)) sid e s)) = clock s \<and>
   timers (snd (fetchStory_catch (new_ReduxActionDispatcher (sys_dispatch R)) sid e s)) = timers s \<and>
   awaits (snd (fetchStory_catch (new_ReduxActionDispatcher (sys_dispatch R)) sid e s)) = awaits s"
  by (simp add: fetchStory_catch_def split: sum.split)

lemma fetchStory_resume_frame:
  "clock (snd (fetchStory_resume (new_ReduxActionDispatcher (sys_dispatch R)) sid r s)) = clock s \<and>
   timers (snd (fetchStory_resume (new_ReduxActionDispatcher (sys_dispatch R)) sid r s)) = timers s \<and>
   awaits (snd (fetchStory_resume (new_ReduxActionDispatcher (sys_dispatch R)) sid r s)) = awaits s"
proof (cases r)
  case (Rejected e)
  then show ?thesis by (simp add: fetchStory_resume_def fetchStory_catch_frame)
next
  case (Resolved v)
  let ?a = "ac_done fetchStory_ac (JObj [(''params'', JNum sid), (''result'', v)])"
  obtain x s1 where d: "sys_dispatch R ?a s = (x, s1)" by fastforce
  then have f: "clock s1 = clock s" "timers s1 = timers s" "awaits s1 = awaits s"
    using sys_dispatch_fields [of R ?a s] by simp_all
  show ?thesis
  proof (cases x)
    case None
    with Resolved d f show ?thesis by (simp add: fetchStory_resume_def)
  next
    case (Some e)
    with Resolved d f fetchStory_catch_frame [of R sid e s1] show ?thesis
      by (simp add: fetchStory_resume_def)
  qed
qed

lemma dispatch_store_dispatcher [simp]:
  "dispatch (store_dispatcher r) = sys_dispatch (pure_reducer r)"
  by (simp add: new_ReduxActionDispatcher_def)

lemma increment_clean [model_simps]:
  "quiet s \<Longrightarrow> increment (store_dispatcher r) d s =
     (None, sys_apply r (increment_ac (JObj [(''delta'', JNum d)])) s)"
  by (simp add: increment_def)

lemma decrement_clean [model_simps]:
  "quiet s \<Longrightarrow> decrement (store_dispatcher r) d s =
     (None, sys_apply r (decrement_ac (JObj [(''delta'', JNum d)])) s)"
  by (simp add: decrement_def)

lemma incrementAsync_clean [model_simps]:
  "quiet s \<Longrightarrow> incrementAsync (store_dispatcher r) s =
     (None, (sys_apply r (ac_started incrementAsync_ac delta_one) s)
              \<lparr>timers := timers s @ [(clock s + 1000, IncrementAsyncDone delta_one)]\<rparr>)"
  by (simp add: incrementAsync_def set_timeout_def Let_def)

lemma decrementAsync_clean [model_simps]:
  "quiet s \<Longrightarrow> decrementAsync (store_dispatcher r) s =
     (None, (sys_apply r (ac_started decrementAsync_ac delta_one) s)
              \<lparr>timers := timers s @ [(clock s + 1000, DecrementAsyncDone delta_one)]\<rparr>)"
  by (simp add: decrementAsync_def set_timeout_def Let_def)

lemma incrementAsync_timeout_clean [model_simps]:
  "quiet s \<Longrightarrow> incrementAsync_timeout (store_dispatcher r) (JObj [(''delta'', d)]) s =
     (None, sys_apply r (ac_done incrementAsync_ac
                           (JObj [(''params'', JObj [(''delta'', d)]), (''result'', d)])) s)"
  by (simp add: incrementAsync_timeout_def)

lemma decrementAsync_timeout_clean [model_simps]:
  "quiet s \<Longrightarrow> decrementAsync_timeout (store_dispatcher r) (JObj [(''delta'', d)]) s =
     (None, sys_apply r (ac_done decrementAsync_ac
                           (JObj [(''params'', JObj [(''delta'', d)]), (''result'', d)])) s)"
  by (simp add: decrementAsync_timeout_def)

lemma fetchStoryAsync_clean [model_simps]:
  "quiet s \<Longrightarrow> fetchStoryAsync (store_dispatcher r) sid s =
     (None, await_call (AwaitStory sid) (sys_apply r (ac_started fetchStory_ac (JNum sid)) s))"
  by (simp add: fetchStoryAsync_def)

lemma fetchStory_resume_resolved_clean [model_simps]:
  "quiet s \<Longrightarrow> fetchStory_resume (store_dispatcher r) sid (Resolved v) s =
     (None, sys_apply r (ac_done fetchStory_ac (JObj [(''params'', JNum sid), (''result'', v)])) s)"
  by (simp add: fetchStory_resume_def)

lemma fetchStory_resume_rejected_clean [model_simps]:
  "quiet s \<Longrightarrow> exn_message e = Inr m \<Longrightarrow>
   fetchStory_resume (store_dispatcher r) sid (Rejected e) s =
     (None, sys_apply r (ac_failed fetchStory_ac (JObj [(''params'', JNum sid), (''error'', m)])) s)"
  by (simp add: fetchStory_resume_def fetchStory_catch_def)

text \<open>The \<open>catch\<close> block itself throws when the rejection carries no object.\<close>

lemma fetchStory_resume_rejected_throws:
  "exn_message e = Inl e' \<Longrightarrow> fetchStory_resume this sid (Rejected e) s = (Some e', s)"
  by (simp add: fetchStory_resume_def fetchStory_catch_def)

subsection \<open>Sequential calls\<close>

text \<open>
  C14. Two plain calls in a row, \<open>increment(d1)\<close> then \<open>decrement(d2)\<close>, on a store with
  a total reducer and quiet listeners, both return normally and are both applied in call
  order: the snapshot is the reducer applied to \<open>increment({delta: d1})\<close> and then to
  \<open>decrement({delta: d2})\<close>, and both are in the log; neither update is lost.
\<close>

theorem increment_decrement_sequential:
  assumes "quiet s"
  shows "let inc = increment_ac (JObj [(''delta'', JNum d1)]);
             dec = decrement_ac (JObj [(''delta'', JNum d2)]);
             s1 = snd (increment (store_dispatcher r) d1 s);
             s2 = snd (decrement (store_dispatcher r) d2 s1)
         in fst (increment (store_dispatcher r) d1 s) = None \<and>
            fst (decrement (store_dispatcher r) d2 s1) = None \<and>
            st_state (sys_store s2) = r (r (st_state (sys_store s)) inc) dec \<and>
            sys_log s2 = sys_log s @ [inc, dec]"
  using assms by (simp add: Let_def increment_clean decrement_clean sys_apply_def)

subsection \<open>A listener fault inside the \<open>try\<close>\<close>

text \<open>
  C10. The \<open>done\<close> dispatch of \<open>fetchStoryAsync\<close> sits inside its \<open>try\<close>. When a
  store listener throws while being notified of the new snapshot, the reducer has already
  applied \<open>done\<close>; the exception reaches the \<open>catch\<close>, which dispatches \<open>failed\<close> as
  well: one invocation ends with both terminal descriptors.
\<close>

theorem fetchStory_listener_fault_both_terminals:
  assumes "notify (st_listeners (sys_store s))
             (r (st_state (sys_store s)) (ac_done fetchStory_ac (JObj [(''params'', JNum sid), (''result'', v)])))
           = Some e"
    and "exn_message e = Inr m"
  shows "sys_log (snd (fetchStory_resume (store_dispatcher r) sid (Resolved v) s)) =
           sys_log s @
           [ac_done fetchStory_ac (JObj [(''params'', JNum sid), (''result'', v)]),
            ac_failed fetchStory_ac (JObj [(''params'', JNum sid), (''error'', m)])]"
  using assms
  by (simp add: fetchStory_resume_def fetchStory_catch_def sys_dispatch_pure split: prod.split)

subsection \<open>What the \<open>catch\<close> puts into \<open>failed\<close>\<close>

text \<open>
  C20. The \<open>catch\<close> of \<open>fetchStoryAsync\<close> dispatches \<open>failed\<close> with
  \<open>error: e.message\<close>. When \<open>API.fetchStory\<close> rejects with an \<open>Error\<close>, that is its
  message string; when it rejects with a string or a number, \<open>e.message\<close> is
  \<open>undefined\<close>, and the \<open>failed\<close> descriptor carries no message at all, where the
  specification (sections 3 and 6) says the error is a string and every failure is
  reduced to one.
\<close>

theorem fetchStory_rejection_error_field:
  assumes "quiet s"
  shows "fetchStory_resume (store_dispatcher r) sid (Rejected (JsError n m)) s =
           (None, sys_apply r (ac_failed fetchStory_ac (JObj [(''params'', JNum sid), (''error'', JStr m)])) s) \<and>
         fetchStory_resume (store_dispatcher r) sid (Rejected (Thrown (JStr str))) s =
           (None, sys_apply r (ac_failed fetchStory_ac (JObj [(''params'', JNum sid), (''error'', JUndefined)])) s) \<and>
         fetchStory_resume (store_dispatcher r) sid (Rejected (Thrown (JNum k))) s =
           (None, sys_apply r (ac_failed fetchStory_ac (JObj [(''params'', JNum sid), (''error'', JUndefined)])) s)"
  using assms by (simp add: fetchStory_resume_rejected_clean exn_message_def)

end
