(* ===== verification/Bootstrap.thy ===== *)
theory Bootstrap
  imports Dispatcher
begin

text \<open>
  The rest of \<open>src/pages/redux.tsx\<close>: the two functions handed to
  \<open>withRedux\<close> (lines 88 to 99) and the initial-props hook \<open>enhance\<close>
  (lines 101 to 112). The hook is an \<open>async\<close> function of the context
  \<open>{ store, isServer }\<close>: on the server it first dispatches \<open>increment({ delta: 5 })\<close>;
  then, on both legs, it awaits \<open>API.fetchTopStoryIds()\<close>, keeps the first five
  identifiers with \<open>slice(0, 5)\<close> and dispatches \<open>fetchTopStories.done\<close> with empty
  params. Nothing catches a failure. \<open>enhance_initial\<close> is the hook up to its
  \<open>await\<close>, \<open>enhance_resume\<close> the rest, and \<open>bootstrap\<close> the whole hook for a
  given outcome of the remote call. \<open>RootState\<close> (from \<open>store/root-state\<close>,
  outside the sources) is known here only by the two fields the page reads.
\<close>

record ('c, 't) RootState =
  counter :: 'c
  stories :: 't

record ('c, 't) StateProps =
  props_counter :: 'c
  props_stories :: 't

record 's DispatchProps =
  actions :: "'s ReduxActionDispatcher"

definition mapStateToProps :: "('c, 't) RootState \<Rightarrow> ('c, 't) StateProps" where
  "mapStateToProps rs = \<lparr>props_counter = counter rs, props_stories = stories rs\<rparr>"

definition mapDispatchToProps :: "'s dispatch_fn \<Rightarrow> 's DispatchProps" where
  "mapDispatchToProps d = \<lparr>actions = new_ReduxActionDispatcher d\<rparr>"

definition enhance_initial :: "'s reducer \<Rightarrow> bool \<Rightarrow> 's sys \<Rightarrow> exn option \<times> 's sys" where
  "enhance_initial R isServer s =
     (if isServer then
        (case sys_dispatch R (increment_ac (JObj [(''delta'', JNum 5)])) s of
           (Some e, s1) \<Rightarrow> (Some e, s1)
         | (None, s1) \<Rightarrow> (None, await_call AwaitTopIds s1))
      else (None, await_call AwaitTopIds s))"

definition enhance_resume :: "'s reducer \<Rightarrow> int list outcome \<Rightarrow> 's sys \<Rightarrow> exn option \<times> 's sys" where
  "enhance_resume R r s =
     (case r of
        Rejected e \<Rightarrow> (Some e, s)
      | Resolved xs \<Rightarrow>
          (let ids = array_slice (map JNum xs) 0 5 in
           sys_dispatch R (ac_done fetchTopStories_ac (JObj [(''params'', JObj []), (''result'', JArr ids)])) s))"

text \<open>
  The whole hook, with the remote call settling with \<open>r\<close> (the awaited promise is the
  last one the hook queued, and it is consumed here).
\<close>

definition bootstrap :: "'s reducer \<Rightarrow> bool \<Rightarrow> int list outcome \<Rightarrow> 's sys \<Rightarrow> exn option \<times> 's sys" where
  "bootstrap R isServer r s =
     (case enhance_initial R isServer s of
        (Some e, s1) \<Rightarrow> (Some e, s1)
      | (None, s1) \<Rightarrow> enhance_resume R r (s1\<lparr>awaits := butlast (awaits s1)\<rparr>))"

text \<open>The action the hook dispatches once the remote call resolved with \<open>xs\<close>.\<close>

abbreviation top_ids_done :: "int list \<Rightarrow> action" where
  "top_ids_done xs \<equiv>
     ac_done fetchTopStories_ac
       (JObj [(''params'', JObj []), (''result'', JArr (map JNum (take 5 xs)))])"

subsection \<open>Lemmas\<close>

lemma actions_mapDispatchToProps [simp]:
  "actions (mapDispatchToProps d) = new_ReduxActionDispatcher d"
  by (simp add: mapDispatchToProps_def)

lemma enhance_initial_clean [model_simps]:
  "quiet s \<Longrightarrow> enhance_initial (pure_reducer r) isServer s =
     (None, await_call AwaitTopIds
              (if isServer then sys_apply r (increment_ac (JObj [(''delta'', JNum 5)])) s else s))"
  by (simp add: enhance_initial_def)

lemma enhance_resume_resolved_clean [model_simps]:
  "quiet s \<Longrightarrow> enhance_resume (pure_reducer r) (Resolved xs) s = (None, sys_apply r (top_ids_done xs) s)"
  by (simp add: enhance_resume_def take_map)

lemma enhance_resume_frame:
  "clock (snd (enhance_resume R r s)) = clock s \<and> timers (snd (enhance_resume R r s)) = timers s \<and>
   awaits (snd (enhance_resume R r s)) = awaits s"
  by (simp add: enhance_resume_def Let_def split: outcome.split)

lemma enhance_resume_rejected [model_simps]:
  "enhance_resume R (Rejected e) s = (Some e, s)"
  by (simp add: enhance_resume_def)

lemma bootstrap_clean:
  "quiet s \<Longrightarrow> bootstrap (pure_reducer r) isServer res s =
     enhance_resume (pure_reducer r) res
       (if isServer then sys_apply r (increment_ac (JObj [(''delta'', JNum 5)])) s else s)"
  by (cases isServer) (simp_all add: bootstrap_def enhance_initial_clean await_call_def sys_apply_def)

subsection \<open>The bootstrap hook's guarantees\<close>

text \<open>
  C6. On the server, with the remote list \<open>[1, ..., 7]\<close>, the hook dispatches
  \<open>increment({delta: 5})\<close> and then one \<open>fetchTopStories.done\<close> with empty params and
  the result \<open>[1, 2, 3, 4, 5]\<close>, and completes normally.
\<close>

theorem bootstrap_server_scenario:
  assumes "quiet s"
  shows "fst (bootstrap (pure_reducer r) True (Resolved [1, 2, 3, 4, 5, 6, 7]) s) = None \<and>
         sys_log (snd (bootstrap (pure_reducer r) True (Resolved [1, 2, 3, 4, 5, 6, 7]) s)) =
           sys_log s @
           [increment_ac (JObj [(''delta'', JNum 5)]),
            ac_done fetchTopStories_ac
              (JObj [(''params'', JObj []),
                     (''result'', JArr [JNum 1, JNum 2, JNum 3, JNum 4, JNum 5])])]"
  using assms by (simp add: bootstrap_clean model_simps)

text \<open>
  C7. On the client (\<open>isServer\<close> false) the hook still dispatches: once the remote
  call resolves it dispatches exactly one action, \<open>fetchTopStories.done\<close> with the first
  five identifiers, where the specification says the client leg issues no dispatch.
\<close>

theorem bootstrap_client_dispatches:
  assumes "quiet s"
  shows "fst (bootstrap (pure_reducer r) False (Resolved xs) s) = None \<and>
         sys_log (snd (bootstrap (pure_reducer r) False (Resolved xs) s)) =
           sys_log s @ [top_ids_done xs]"
  using assms by (simp add: bootstrap_clean model_simps)

text \<open>
  C8. On either leg, the identifiers the hook dispatches are the upstream list cut to at
  most five entries, in the upstream order: the first \<open>min 5 n\<close> entries of the \<open>n\<close>
  received.
\<close>

theorem bootstrap_truncates:
  assumes "quiet s"
  shows "\<exists>ids. last (sys_log (snd (bootstrap (pure_reducer r) isServer (Resolved xs) s))) =
                 ac_done fetchTopStories_ac (JObj [(''params'', JObj []), (''result'', JArr (map JNum ids))]) \<and>
               length ids = min 5 (length xs) \<and> ids @ drop (length ids) xs = xs"
proof (intro exI conjI)
  show "last (sys_log (snd (bootstrap (pure_reducer r) isServer (Resolved xs) s))) =
          ac_done fetchTopStories_ac (JObj [(''params'', JObj []), (''result'', JArr (map JNum (take 5 xs)))])"
    using assms by (simp add: bootstrap_clean model_simps)
  show "length (take 5 xs) = min 5 (length xs)" by simp
  show "take 5 xs @ drop (length (take 5 xs)) xs = xs"
    by (simp add: min_def)
qed

text \<open>
  C17. A rejection of the remote call is not caught: the hook's promise rejects with that
  same exception (the server render fails), and nothing but the server's seed
  \<open>increment({delta: 5})\<close> has been dispatched; in particular no
  \<open>fetchTopStories\<close> action.
\<close>

theorem bootstrap_rejection_propagates:
  assumes "quiet s"
  shows "bootstrap (pure_reducer r) isServer (Rejected e) s =
           (Some e, if isServer then sys_apply r (increment_ac (JObj [(''delta'', JNum 5)])) s else s)"
  using assms by (simp add: bootstrap_clean model_simps)

text \<open>
  C21. On either leg the hook dispatches \<open>fetchTopStories.done\<close> without any
  \<open>fetchTopStories.started\<close> before it, which the specification's error taxonomy
  (section 7) classes as a protocol violation; the store accepts it like any action.
\<close>

theorem bootstrap_done_without_started:
  assumes "quiet s"
  shows "kind_count (Async ''fetchTopStories'' Started)
           (sys_log (snd (bootstrap (pure_reducer r) isServer (Resolved xs) s))) =
         kind_count (Async ''fetchTopStories'' Started) (sys_log s) \<and>
         kind_count (Async ''fetchTopStories'' Done)
           (sys_log (snd (bootstrap (pure_reducer r) isServer (Resolved xs) s))) =
         Suc (kind_count (Async ''fetchTopStories'' Done) (sys_log s))"
  using assms by (simp add: bootstrap_clean model_simps)

end
