(* ===== verification/EventLoop.thy ===== *)
theory EventLoop
  imports Bootstrap
begin

text \<open>
  The page at run time, as a step relation on host states. Whichever of these happens
  next is not determined by the code, so the steps form an \<open>inductive\<close> relation:
  \<^item> \<open>call\<close>: the UI calls a method of the dispatcher built by \<open>mapDispatchToProps\<close>
    over the store's \<open>dispatch\<close>;
  \<^item> \<open>tick\<close>: time passes;
  \<^item> \<open>fire\<close>: the due timer with the least fire time runs its callback;
  \<^item> \<open>resolve_story\<close>, \<open>resolve_ids\<close>: a remote call the page awaits settles, with any
    value or with a rejection the environment \<open>E\<close> can produce, and the suspended
    function continues.
  An exception that escapes a step is recorded as uncaught. The reachable states start
  from the bootstrap hook's synchronous part on a fresh host.
\<close>

datatype user_call =
    CallIncrement int
  | CallDecrement int
  | CallIncrementAsync
  | CallDecrementAsync
  | CallFetchStoryAsync int

fun run_call :: "'s ReduxActionDispatcher \<Rightarrow> user_call \<Rightarrow> 's sys \<Rightarrow> exn option \<times> 's sys" where
  "run_call this (CallIncrement d) s = increment this d s"
| "run_call this (CallDecrement d) s = decrement this d s"
| "run_call this CallIncrementAsync s = incrementAsync this s"
| "run_call this CallDecrementAsync s = decrementAsync this s"
| "run_call this (CallFetchStoryAsync sid) s = fetchStoryAsync this sid s"

definition env_allows :: "(exn \<Rightarrow> bool) \<Rightarrow> 'a outcome \<Rightarrow> bool" where
  "env_allows E r = (case r of Resolved v \<Rightarrow> True | Rejected e \<Rightarrow> E e)"

abbreviation page_dispatcher :: "'s reducer \<Rightarrow> 's ReduxActionDispatcher" where
  "page_dispatcher R \<equiv> actions (mapDispatchToProps (sys_dispatch R))"

inductive loop_step :: "'s reducer \<Rightarrow> (exn \<Rightarrow> bool) \<Rightarrow> 's sys \<Rightarrow> 's sys \<Rightarrow> bool"
  for R E where
  call: "loop_step R E s (record_uncaught (run_call (page_dispatcher R) c s))"
| tick: "loop_step R E s (s\<lparr>clock := clock s + d\<rparr>)"
| fire: "due_timer s = Some i \<Longrightarrow>
    loop_step R E s
      (record_uncaught (run_callback (page_dispatcher R) (snd (timers s ! i))
         (s\<lparr>timers := remove_nth i (timers s)\<rparr>)))"
| resolve_story: "i < length (awaits s) \<Longrightarrow> awaits s ! i = AwaitStory sid \<Longrightarrow> env_allows E r \<Longrightarrow>
    loop_step R E s
      (record_uncaught (fetchStory_resume (page_dispatcher R) sid r
         (s\<lparr>awaits := remove_nth i (awaits s)\<rparr>)))"
| resolve_ids: "i < length (awaits s) \<Longrightarrow> awaits s ! i = AwaitTopIds \<Longrightarrow> env_allows E r \<Longrightarrow>
    loop_step R E s
      (record_uncaught (enhance_resume R r (s\<lparr>awaits := remove_nth i (awaits s)\<rparr>)))"

definition boot_state :: "'s reducer \<Rightarrow> bool \<Rightarrow> 's store \<Rightarrow> 's sys" where
  "boot_state R isServer st0 = record_uncaught (enhance_initial R isServer (init_sys st0))"

inductive reachable :: "'s reducer \<Rightarrow> (exn \<Rightarrow> bool) \<Rightarrow> bool \<Rightarrow> 's store \<Rightarrow> 's sys \<Rightarrow> bool"
  for R E isServer st0 where
  boot: "reachable R E isServer st0 (boot_state R isServer st0)"
| step: "reachable R E isServer st0 s \<Longrightarrow> loop_step R E s t \<Longrightarrow> reachable R E isServer st0 t"

inductive_cases loop_stepE: "loop_step R E s t"

subsection \<open>What the lifecycle invariant counts\<close>

text \<open>
  The operations run by the dispatcher with a \<open>started\<close> phase, the operation a timer
  callback or an awaiting continuation will finish, and for one operation the descriptors
  of each phase in a log and the invocations still in flight.
\<close>

definition runner_ops :: "string list" where
  "runner_ops = [''incrementAsync'', ''decrementAsync'', ''fetchStory'']"

fun callback_op :: "callback \<Rightarrow> string" where
  "callback_op (IncrementAsyncDone p) = ''incrementAsync''"
| "callback_op (DecrementAsyncDone p) = ''decrementAsync''"

fun pending_op :: "pending \<Rightarrow> string option" where
  "pending_op (AwaitStory sid) = Some ''fetchStory''"
| "pending_op AwaitTopIds = None"

definition started_count :: "string \<Rightarrow> action list \<Rightarrow> nat" where
  "started_count n as = kind_count (Async n Started) as"

definition terminal_count :: "string \<Rightarrow> action list \<Rightarrow> nat" where
  "terminal_count n as = kind_count (Async n Done) as + kind_count (Async n Failed) as"

definition in_flight :: "string \<Rightarrow> 's sys \<Rightarrow> nat" where
  "in_flight n s =
     count_where (\<lambda>tc. callback_op (snd tc) = n) (timers s)
     + count_where (\<lambda>p. pending_op p = Some n) (awaits s)"

text \<open>Every prefix of the log has at least as many \<open>started\<close> as terminal descriptors.\<close>

definition started_first :: "string \<Rightarrow> action list \<Rightarrow> bool" where
  "started_first n as =
     list_all (\<lambda>k. terminal_count n (take k as) \<le> started_count n (take k as)) [0..<Suc (length as)]"

definition timers_wf :: "'s sys \<Rightarrow> bool" where
  "timers_wf s \<longleftrightarrow>
     (\<forall>tc \<in> set (timers s).
        snd tc = IncrementAsyncDone delta_one \<or> snd tc = DecrementAsyncDone delta_one)"

definition env_messages :: "(exn \<Rightarrow> bool) \<Rightarrow> bool" where
  "env_messages E \<longleftrightarrow> (\<forall>e. E e \<longrightarrow> (\<exists>m. exn_message e = Inr m))"

text \<open>
  The effect of one step on the lifecycle of operation \<open>n\<close>: \<open>xs\<close> is what the
  step appended to the log; the \<open>started\<close> it adds and the invocations in flight before
  it balance the terminal descriptors it adds and the invocations in flight after it.
\<close>

definition balances :: "string \<Rightarrow> action list \<Rightarrow> 's sys \<Rightarrow> 's sys \<Rightarrow> bool" where
  "balances n xs s t \<longleftrightarrow>
     started_count n xs + in_flight n s = terminal_count n xs + in_flight n t"

definition lifecycle_inv :: "'s sys \<Rightarrow> bool" where
  "lifecycle_inv s \<longleftrightarrow>
     quiet s \<and> timers_wf s \<and>
     (\<forall>n \<in> set runner_ops.
        started_count n (sys_log s) = terminal_count n (sys_log s) + in_flight n s \<and>
        started_first n (sys_log s))"

text \<open>
  The timer queue: fire times in arming order are non-decreasing, and none lies more than
  the page's delay (1000 ms) ahead of the clock.
\<close>

definition timer_inv :: "'s sys \<Rightarrow> bool" where
  "timer_inv s \<longleftrightarrow>
     sorted (map fst (timers s)) \<and> (\<forall>tc \<in> set (timers s). fst tc \<le> clock s + 1000)"

text \<open>The bootstrap's own remote call, while it is pending (at most once).\<close>

definition bootstrap_pending :: "'s sys \<Rightarrow> nat" where
  "bootstrap_pending s = count_where (\<lambda>p. p = AwaitTopIds) (awaits s)"

subsection \<open>The abstract lifecycle\<close>

text \<open>
  The specification's contract for the runner (section 4.3), per operation and without
  the code's detail: how many invocations have started (dispatched \<open>started\<close>), how many
  are active, how many have finished. An invocation starts (its \<open>started\<close> is
  dispatched and it becomes active), or an active invocation finishes with one terminal
  phase; nothing else changes the counts. \<open>abs_lifecycle\<close> reads this abstract state off
  a host state: the started and finished invocations are the operation's \<open>started\<close> and
  terminal descriptors in the log, the active ones its armed timers and pending calls.
\<close>

record lifecycle =
  lc_started :: "string \<Rightarrow> nat"
  lc_active :: "string \<Rightarrow> nat"
  lc_finished :: "string \<Rightarrow> nat"

inductive lc_step :: "lifecycle \<Rightarrow> lifecycle \<Rightarrow> bool" where
  lc_start: "n \<in> set runner_ops \<Longrightarrow>
    lc_step a (a\<lparr>lc_started := (lc_started a)(n := Suc (lc_started a n)),
                 lc_active := (lc_active a)(n := Suc (lc_active a n))\<rparr>)"
| lc_finish: "n \<in> set runner_ops \<Longrightarrow> 0 < lc_active a n \<Longrightarrow>
    lc_step a (a\<lparr>lc_active := (lc_active a)(n := lc_active a n - 1),
                 lc_finished := (lc_finished a)(n := Suc (lc_finished a n))\<rparr>)"
| lc_idle: "lc_step a a"

definition lc_init :: lifecycle where
  "lc_init = \<lparr>lc_started = (\<lambda>n. 0), lc_active = (\<lambda>n. 0), lc_finished = (\<lambda>n. 0)\<rparr>"

text \<open>The machine's own guarantee: every started invocation is active or finished.\<close>

definition lc_inv :: "lifecycle \<Rightarrow> bool" where
  "lc_inv a \<longleftrightarrow> (\<forall>n. lc_started a n = lc_active a n + lc_finished a n)"

definition abs_lifecycle :: "'s sys \<Rightarrow> lifecycle" where
  "abs_lifecycle s =
     \<lparr>lc_started = (\<lambda>n. if n \<in> set runner_ops then started_count n (sys_log s) else 0),
      lc_active = (\<lambda>n. if n \<in> set runner_ops then in_flight n s else 0),
      lc_finished = (\<lambda>n. if n \<in> set runner_ops then terminal_count n (sys_log s) else 0)\<rparr>"

text \<open>
  One step on a well-behaved store: the listeners stay quiet, the timers well formed,
  the log grows by at most one action, and every runner operation's counts balance.
\<close>

definition clean_effect :: "'s sys \<Rightarrow> 's sys \<Rightarrow> bool" where
  "clean_effect s t \<longleftrightarrow>
     quiet t \<and> timers_wf t \<and>
     (\<exists>xs. sys_log t = sys_log s @ xs \<and> length xs \<le> 1 \<and> (\<forall>n \<in> set runner_ops. balances n xs s t))"

text \<open>
  A fresh store (empty log) with quiet listeners, a total reducer and an environment
  whose rejections carry a message: the conditions under which the lifecycle holds.
\<close>

definition clean_start :: "'s store \<Rightarrow> bool" where
  "clean_start st0 \<longleftrightarrow> st_log st0 = [] \<and> listeners_quiet (st_listeners st0)"

abbreviation steps :: "'s reducer \<Rightarrow> (exn \<Rightarrow> bool) \<Rightarrow> 's sys \<Rightarrow> 's sys \<Rightarrow> bool" where
  "steps R E \<equiv> (loop_step R E)\<^sup>*\<^sup>*"

subsection \<open>Lemmas: counting\<close>

lemma started_count_append [simp]:
  "started_count n (xs @ ys) = started_count n xs + started_count n ys"
  by (simp add: started_count_def)

lemma terminal_count_append [simp]:
  "terminal_count n (xs @ ys) = terminal_count n xs + terminal_count n ys"
  by (simp add: terminal_count_def)

lemma counts_Nil [simp]: "started_count n [] = 0" "terminal_count n [] = 0"
  by (simp_all add: started_count_def terminal_count_def)

lemma counts_single [simp]:
  "started_count n [a] = (if act_kind a = Async n Started then 1 else 0)"
  "terminal_count n [a] =
     (if act_kind a = Async n Done \<or> act_kind a = Async n Failed then 1 else 0)"
  by (auto simp: started_count_def terminal_count_def)

lemma in_flight_sys_apply [simp]: "in_flight n (sys_apply r a s) = in_flight n s"
  by (simp add: in_flight_def)

lemma in_flight_fields [simp]:
  "in_flight n (s\<lparr>clock := c\<rparr>) = in_flight n s"
  "in_flight n (s\<lparr>uncaught := u\<rparr>) = in_flight n s"
  by (simp_all add: in_flight_def)

lemma in_flight_await_call [simp]:
  "in_flight n (await_call p s) = in_flight n s + (if pending_op p = Some n then 1 else 0)"
  by (simp add: in_flight_def)

lemma in_flight_timers_snoc [simp]:
  "in_flight n (s\<lparr>timers := timers s @ [(t, cb)]\<rparr>) =
     in_flight n s + (if callback_op cb = n then 1 else 0)"
  by (simp add: in_flight_def)

lemma in_flight_remove_timer:
  "i < length (timers s) \<Longrightarrow>
   in_flight n (s\<lparr>timers := remove_nth i (timers s)\<rparr>)
     + (if callback_op (snd (timers s ! i)) = n then 1 else 0) = in_flight n s"
  using count_where_remove_nth [of i "timers s" "\<lambda>tc. callback_op (snd tc) = n"]
  by (simp add: in_flight_def)

lemma in_flight_remove_await:
  "i < length (awaits s) \<Longrightarrow>
   in_flight n (s\<lparr>awaits := remove_nth i (awaits s)\<rparr>)
     + (if pending_op (awaits s ! i) = Some n then 1 else 0) = in_flight n s"
  using count_where_remove_nth [of i "awaits s" "\<lambda>p. pending_op p = Some n"]
  by (simp add: in_flight_def)

lemma started_first_iff:
  "started_first n as \<longleftrightarrow>
     (\<forall>k \<le> length as. terminal_count n (take k as) \<le> started_count n (take k as))"
  unfolding started_first_def list_all_iff set_upt by auto

lemma started_first_snoc:
  assumes "started_first n as" and "terminal_count n (as @ xs) \<le> started_count n (as @ xs)"
    and "length xs \<le> 1"
  shows "started_first n (as @ xs)"
proof (cases xs)
  case Nil
  with assms(1) show ?thesis by simp
next
  case (Cons x ys)
  with assms(3) have xs: "xs = [x]" by simp
  have old: "terminal_count n (take k as) \<le> started_count n (take k as)" if "k \<le> length as" for k
    using assms(1) that by (simp add: started_first_iff)
  have "terminal_count n (take k (as @ [x])) \<le> started_count n (take k (as @ [x]))"
    if k: "k \<le> length (as @ [x])" for k
  proof (cases "k \<le> length as")
    case True
    with old show ?thesis by simp
  next
    case False
    with k have "take k (as @ [x]) = as @ [x]" by simp
    with assms(2) xs show ?thesis by simp
  qed
  with xs show ?thesis by (simp only: started_first_iff) blast
qed

subsection \<open>Lemmas: one step on a well-behaved store\<close>

lemma clean_effectI:
  assumes "quiet t" "timers_wf t" "sys_log t = sys_log s @ xs" "length xs \<le> 1"
    and "\<And>n. n \<in> set runner_ops \<Longrightarrow> balances n xs s t"
  shows "clean_effect s t"
  using assms unfolding clean_effect_def by blast

lemma record_uncaught_None [simp]: "record_uncaught (None, s) = s"
  by (simp add: record_uncaught_def)

lemma record_uncaught_Some [simp]:
  "record_uncaught (Some e, s) = s\<lparr>uncaught := uncaught s @ [e]\<rparr>"
  by (simp add: record_uncaught_def)

lemma runner_ops_not [simp]:
  "n \<in> set runner_ops \<Longrightarrow> n \<noteq> ''fetchTopStories''"
  "n \<in> set runner_ops \<Longrightarrow> ''fetchTopStories'' \<noteq> n"
  by (auto simp: runner_ops_def)

lemmas step_simps = model_simps in_flight_def balances_def timers_wf_def

lemma clean_effect_call:
  assumes "quiet s" "timers_wf s"
  shows "clean_effect s (record_uncaught (run_call (store_dispatcher r) c s))"
proof (cases c)
  case (CallIncrement d)
  with assms show ?thesis
    by (intro clean_effectI [where xs = "[increment_ac (JObj [(''delta'', JNum d)])]"])
      (simp_all add: step_simps)
next
  case (CallDecrement d)
  with assms show ?thesis
    by (intro clean_effectI [where xs = "[decrement_ac (JObj [(''delta'', JNum d)])]"])
      (simp_all add: step_simps)
next
  case CallIncrementAsync
  with assms show ?thesis
    by (intro clean_effectI [where xs = "[ac_started incrementAsync_ac delta_one]"])
      (simp_all add: step_simps)
next
  case CallDecrementAsync
  with assms show ?thesis
    by (intro clean_effectI [where xs = "[ac_started decrementAsync_ac delta_one]"])
      (simp_all add: step_simps)
next
  case (CallFetchStoryAsync sid)
  with assms show ?thesis
    by (intro clean_effectI [where xs = "[ac_started fetchStory_ac (JNum sid)]"])
      (simp_all add: step_simps)
qed

lemma due_timer_bound: "due_timer s = Some i \<Longrightarrow> i < length (timers s)"
  by (auto simp: due_timer_def split: option.splits if_splits dest: earliest_timer_bound)

lemma timers_wf_fields [simp]:
  "timers_wf (sys_apply r a s) = timers_wf s"
  "timers_wf (s\<lparr>uncaught := u\<rparr>) = timers_wf s"
  "timers_wf (s\<lparr>awaits := ps\<rparr>) = timers_wf s"
  "timers_wf (await_call p s) = timers_wf s"
  by (simp_all add: timers_wf_def)

lemma timers_wf_remove_nth:
  "timers_wf s \<Longrightarrow> timers_wf (s\<lparr>timers := remove_nth i (timers s)\<rparr>)"
  using set_remove_nth_subset [of i "timers s"] by (auto simp: timers_wf_def)

lemma clean_effect_tick: "clean_effect s (s\<lparr>clock := clock s + d\<rparr>)" if "quiet s" "timers_wf s"
  using that by (intro clean_effectI [where xs = "[]"]) (simp_all add: step_simps)

lemma clean_effect_fire:
  assumes "quiet s" "timers_wf s" and due: "due_timer s = Some i"
  shows "clean_effect s (record_uncaught (run_callback (store_dispatcher r) (snd (timers s ! i))
                           (s\<lparr>timers := remove_nth i (timers s)\<rparr>)))"
    (is "clean_effect s (record_uncaught (run_callback _ _ ?s'))")
proof -
  from due have i: "i < length (timers s)" by (rule due_timer_bound)
  then have mem: "timers s ! i \<in> set (timers s)" by simp
  have wf': "timers_wf ?s'" using assms(2) by (rule timers_wf_remove_nth)
  have cnt: "in_flight n ?s' + (if callback_op (snd (timers s ! i)) = n then 1 else 0) = in_flight n s"
    for n using i by (rule in_flight_remove_timer)
  from assms(2) mem consider
      "snd (timers s ! i) = IncrementAsyncDone delta_one"
    | "snd (timers s ! i) = DecrementAsyncDone delta_one"
    by (auto simp: timers_wf_def)
  then show ?thesis
  proof cases
    case 1
    let ?a = "ac_done incrementAsync_ac (JObj [(''params'', delta_one), (''result'', JNum 1)])"
    from 1 assms(1) wf' show ?thesis
      by (intro clean_effectI [where xs = "[?a]"]) (simp_all add: model_simps balances_def cnt [symmetric])
  next
    case 2
    let ?a = "ac_done decrementAsync_ac (JObj [(''params'', delta_one), (''result'', JNum 1)])"
    from 2 assms(1) wf' show ?thesis
      by (intro clean_effectI [where xs = "[?a]"]) (simp_all add: model_simps balances_def cnt [symmetric])
  qed
qed

lemma clean_effect_resolve_story:
  assumes "quiet s" "timers_wf s" "env_messages E" "env_allows E r'"
    and i: "i < length (awaits s)" and p: "awaits s ! i = AwaitStory sid"
  shows "clean_effect s (record_uncaught (fetchStory_resume (store_dispatcher r) sid r'
                           (s\<lparr>awaits := remove_nth i (awaits s)\<rparr>)))"
    (is "clean_effect s (record_uncaught (fetchStory_resume _ _ _ ?s'))")
proof -
  have cnt: "in_flight n ?s' + (if pending_op (awaits s ! i) = Some n then 1 else 0) = in_flight n s"
    for n using i by (rule in_flight_remove_await)
  show ?thesis
  proof (cases r')
    case (Resolved v)
    let ?a = "ac_done fetchStory_ac (JObj [(''params'', JNum sid), (''result'', v)])"
    from Resolved assms(1,2) p show ?thesis
      by (intro clean_effectI [where xs = "[?a]"]) (simp_all add: model_simps balances_def cnt [symmetric])
  next
    case (Rejected e)
    with assms(3,4) obtain m where m: "exn_message e = Inr m"
      by (auto simp: env_messages_def env_allows_def)
    let ?a = "ac_failed fetchStory_ac (JObj [(''params'', JNum sid), (''error'', m)])"
    from Rejected m assms(1,2) p show ?thesis
      by (intro clean_effectI [where xs = "[?a]"]) (simp_all add: model_simps balances_def cnt [symmetric])
  qed
qed

lemma clean_effect_resolve_ids:
  assumes "quiet s" "timers_wf s"
    and i: "i < length (awaits s)" and p: "awaits s ! i = AwaitTopIds"
  shows "clean_effect s (record_uncaught (enhance_resume (pure_reducer r) r'
                           (s\<lparr>awaits := remove_nth i (awaits s)\<rparr>)))"
    (is "clean_effect s (record_uncaught (enhance_resume _ _ ?s'))")
proof -
  have cnt: "in_flight n ?s' = in_flight n s" for n
    using in_flight_remove_await [OF i, of n] p by simp
  show ?thesis
  proof (cases r')
    case (Resolved xs)
    from Resolved assms(1,2) show ?thesis
      by (intro clean_effectI [where xs = "[top_ids_done xs]"])
        (simp_all add: model_simps balances_def cnt)
  next
    case (Rejected e)
    from Rejected assms(1,2) show ?thesis
      by (intro clean_effectI [where xs = "[]"]) (simp_all add: model_simps balances_def cnt)
  qed
qed

lemma loop_step_clean_effect:
  assumes "loop_step (pure_reducer r) E s t" "quiet s" "timers_wf s" "env_messages E"
  shows "clean_effect s t"
  using assms(1)
proof cases
  case (call c)
  with assms(2,3) show ?thesis by (simp add: clean_effect_call)
next
  case (tick d)
  with assms(2,3) show ?thesis by (simp add: clean_effect_tick)
next
  case (fire i)
  with assms(2,3) show ?thesis by (simp add: clean_effect_fire)
next
  case (resolve_story i sid r')
  with assms(2-4) show ?thesis by (simp add: clean_effect_resolve_story)
next
  case (resolve_ids i r')
  with assms(2,3) show ?thesis by (simp add: clean_effect_resolve_ids)
qed

subsection \<open>Lemmas: the invariant on reachable states\<close>

lemma lifecycle_inv_boot:
  "clean_start st0 \<Longrightarrow> lifecycle_inv (boot_state (pure_reducer r) isServer st0)"
  by (simp add: clean_start_def boot_state_def init_sys_def lifecycle_inv_def model_simps
      in_flight_def timers_wf_def started_first_def)

lemma lifecycle_inv_step:
  assumes inv: "lifecycle_inv s" and step: "loop_step (pure_reducer r) E s t"
    and E: "env_messages E"
  shows "lifecycle_inv t"
proof -
  from inv have q: "quiet s" and wf: "timers_wf s" by (simp_all add: lifecycle_inv_def)
  from loop_step_clean_effect [OF step q wf E] obtain xs where
    q': "quiet t" and wf': "timers_wf t" and log: "sys_log t = sys_log s @ xs"
    and len: "length xs \<le> 1" and bal: "\<And>n. n \<in> set runner_ops \<Longrightarrow> balances n xs s t"
    by (auto simp: clean_effect_def)
  have "started_count n (sys_log t) = terminal_count n (sys_log t) + in_flight n t \<and>
        started_first n (sys_log t)" if n: "n \<in> set runner_ops" for n
  proof -
    from inv n have old: "started_count n (sys_log s) = terminal_count n (sys_log s) + in_flight n s"
      and first: "started_first n (sys_log s)"
      by (simp_all add: lifecycle_inv_def)
    from bal [OF n] have "started_count n xs + in_flight n s = terminal_count n xs + in_flight n t"
      by (simp add: balances_def)
    with old log have eq: "started_count n (sys_log t) = terminal_count n (sys_log t) + in_flight n t"
      by simp
    then have "terminal_count n (sys_log s @ xs) \<le> started_count n (sys_log s @ xs)"
      by (simp add: log [symmetric])
    then have "started_first n (sys_log s @ xs)"
      using first len by (intro started_first_snoc)
    with eq log show ?thesis by simp
  qed
  with q' wf' show ?thesis by (simp add: lifecycle_inv_def)
qed

lemma reachable_lifecycle_inv:
  assumes "reachable (pure_reducer r) E isServer st0 s" "clean_start st0" "env_messages E"
  shows "lifecycle_inv s"
  using assms(1)
proof (induction rule: reachable.induct)
  case boot
  from assms(2) show ?case by (rule lifecycle_inv_boot)
next
  case (step s t)
  from step.IH step.hyps(2) assms(3) show ?case by (rule lifecycle_inv_step)
qed

subsection \<open>Lemmas: runs and draining the pending work\<close>

lemma record_uncaught_frame [simp]:
  "clock (record_uncaught p) = clock (snd p)"
  "timers (record_uncaught p) = timers (snd p)"
  "awaits (record_uncaught p) = awaits (snd p)"
  "sys_log (record_uncaught p) = sys_log (snd p)"
  by (cases p, simp add: record_uncaught_def split: option.split)+

lemma steps_lifecycle:
  assumes "steps (pure_reducer r) E s t" "lifecycle_inv s" "env_messages E"
  shows "lifecycle_inv t \<and> (\<exists>xs. sys_log t = sys_log s @ xs)"
  using assms(1)
proof (induction rule: rtranclp_induct)
  case base
  from assms(2) show ?case by simp
next
  case (step u t)
  then have inv: "lifecycle_inv u" and pre: "\<exists>xs. sys_log u = sys_log s @ xs" by simp_all
  then have "quiet u" "timers_wf u" by (simp_all add: lifecycle_inv_def)
  from loop_step_clean_effect [OF step.hyps(2) this assms(3)]
  obtain ys where "sys_log t = sys_log u @ ys" by (auto simp: clean_effect_def)
  with pre have "\<exists>xs. sys_log t = sys_log s @ xs" by auto
  with lifecycle_inv_step [OF inv step.hyps(2) assms(3)] show ?case by simp
qed

lemma drain_awaits:
  assumes "lifecycle_inv s" "env_messages E"
  shows "\<exists>t. steps (pure_reducer r) E s t \<and> awaits t = [] \<and> timers t = timers s \<and> clock t = clock s"
  using assms(1)
proof (induction "awaits s" arbitrary: s)
  case Nil
  then show ?case by (intro exI [of _ s]) simp
next
  case (Cons p ps)
  have i: "0 < length (awaits s)" using Cons.hyps(2) by (metis length_greater_0_conv list.discI)
  have hd: "awaits s ! 0 = p" using Cons.hyps(2) by (metis nth_Cons_0)
  have rem: "remove_nth 0 (awaits s) = ps" using Cons.hyps(2) by (metis remove_nth_def drop_Suc_Cons drop0 take0 append.left_neutral)
  obtain t1 where st: "loop_step (pure_reducer r) E s t1" and a1: "awaits t1 = ps"
    and f1: "timers t1 = timers s" "clock t1 = clock s"
  proof (cases p)
    case (AwaitStory sid)
    let ?t = "record_uncaught (fetchStory_resume (page_dispatcher (pure_reducer r)) sid (Resolved JNull)
                (s\<lparr>awaits := remove_nth 0 (awaits s)\<rparr>))"
    have "loop_step (pure_reducer r) E s ?t"
      using i hd AwaitStory by (intro loop_step.resolve_story) (simp_all add: env_allows_def)
    moreover have "awaits ?t = ps" "timers ?t = timers s" "clock ?t = clock s"
      using fetchStory_resume_frame [of "pure_reducer r" sid "Resolved JNull" "s\<lparr>awaits := ps\<rparr>"] rem
      by simp_all
    ultimately show ?thesis using that by blast
  next
    case AwaitTopIds
    let ?t = "record_uncaught (enhance_resume (pure_reducer r) (Resolved [])
                (s\<lparr>awaits := remove_nth 0 (awaits s)\<rparr>))"
    have "loop_step (pure_reducer r) E s ?t"
      using i hd AwaitTopIds by (intro loop_step.resolve_ids) (simp_all add: env_allows_def)
    moreover have "awaits ?t = ps" "timers ?t = timers s" "clock ?t = clock s"
      using enhance_resume_frame [of "pure_reducer r" "Resolved []" "s\<lparr>awaits := ps\<rparr>"] rem
      by simp_all
    ultimately show ?thesis using that by blast
  qed
  from lifecycle_inv_step [OF Cons.prems st assms(2)] have "lifecycle_inv t1" .
  from Cons.hyps(1) [OF a1 [symmetric] this] obtain t where
    "steps (pure_reducer r) E t1 t" "awaits t = []" "timers t = timers t1" "clock t = clock t1"
    by blast
  with st f1 show ?case by (intro exI [of _ t]) (auto intro: converse_rtranclp_into_rtranclp)
qed

lemma due_timer_exists:
  assumes "timers s \<noteq> []" and "\<forall>tc \<in> set (timers s). fst tc \<le> clock s"
  shows "\<exists>i. due_timer s = Some i"
proof -
  from assms(1) obtain i where e: "earliest_timer (timers s) = Some i"
    by (cases "earliest_timer (timers s)") simp_all
  then have "i < length (timers s)" by (rule earliest_timer_bound)
  then have "timers s ! i \<in> set (timers s)" by simp
  with assms(2) e show ?thesis by (simp add: due_timer_def)
qed

lemma drain_timers:
  assumes "lifecycle_inv s" "env_messages E" "\<forall>tc \<in> set (timers s). fst tc \<le> clock s"
  shows "\<exists>t. steps (pure_reducer r) E s t \<and> timers t = [] \<and> awaits t = awaits s \<and> clock t = clock s"
  using assms(1,3)
proof (induction "length (timers s)" arbitrary: s)
  case 0
  then show ?case by (intro exI [of _ s]) simp
next
  case (Suc n)
  then have ne: "timers s \<noteq> []" by auto
  with Suc.prems(2) obtain i where due: "due_timer s = Some i" by (blast dest: due_timer_exists)
  let ?s' = "s\<lparr>timers := remove_nth i (timers s)\<rparr>"
  let ?t1 = "record_uncaught (run_callback (page_dispatcher (pure_reducer r)) (snd (timers s ! i)) ?s')"
  have st: "loop_step (pure_reducer r) E s ?t1" using due by (rule loop_step.fire)
  have f: "timers ?t1 = remove_nth i (timers s)" "awaits ?t1 = awaits s" "clock ?t1 = clock s"
    using run_callback_frame [of "pure_reducer r" "snd (timers s ! i)" ?s'] by simp_all
  have i: "i < length (timers s)" using due by (rule due_timer_bound)
  with Suc.hyps(2) f have len: "n = length (timers ?t1)" by simp
  have "\<forall>tc \<in> set (timers ?t1). fst tc \<le> clock ?t1"
    using Suc.prems(2) f set_remove_nth_subset [of i "timers s"] by auto
  with Suc.hyps(1) [OF len lifecycle_inv_step [OF Suc.prems(1) st assms(2)]] obtain t where
    "steps (pure_reducer r) E ?t1 t" "timers t = []" "awaits t = awaits ?t1" "clock t = clock ?t1"
    by blast
  with st f show ?case by (intro exI [of _ t]) (auto intro: converse_rtranclp_into_rtranclp)
qed

subsection \<open>Lemmas: the abstract lifecycle\<close>

lemma lc_inv_init: "lc_inv lc_init"
  by (simp add: lc_inv_def lc_init_def)

lemma lc_step_inv: "lc_step a b \<Longrightarrow> lc_inv a \<Longrightarrow> lc_inv b"
  by (induction rule: lc_step.induct) (auto simp: lc_inv_def)

lemma clean_effect_lc_step:
  assumes "clean_effect s t"
  shows "lc_step (abs_lifecycle s) (abs_lifecycle t)"
proof -
  from assms obtain xs where log: "sys_log t = sys_log s @ xs" and len: "length xs \<le> 1"
    and bal: "\<And>n. n \<in> set runner_ops \<Longrightarrow>
                started_count n xs + in_flight n s = terminal_count n xs + in_flight n t"
    by (auto simp: clean_effect_def balances_def)
  show ?thesis
  proof (cases xs)
    case Nil
    with bal log have "abs_lifecycle t = abs_lifecycle s"
      by (simp add: abs_lifecycle_def fun_eq_iff)
    then show ?thesis by (simp add: lc_step.lc_idle)
  next
    case (Cons a ys)
    with len have xs: "xs = [a]" by simp
    consider (start) n where "n \<in> set runner_ops" "act_kind a = Async n Started"
      | (finish) n where "n \<in> set runner_ops" "act_kind a = Async n Done \<or> act_kind a = Async n Failed"
      | (other) "\<forall>n \<in> set runner_ops. act_kind a \<noteq> Async n Started \<and>
                   act_kind a \<noteq> Async n Done \<and> act_kind a \<noteq> Async n Failed"
      by blast
    then show ?thesis
    proof cases
      case start
      have inf: "in_flight m t = (if m = n then Suc (in_flight m s) else in_flight m s)"
        if "m \<in> set runner_ops" for m
        using bal [OF that] start xs by auto
      have "abs_lifecycle t =
          (abs_lifecycle s)\<lparr>lc_started := (lc_started (abs_lifecycle s))(n := Suc (lc_started (abs_lifecycle s) n)),
                             lc_active := (lc_active (abs_lifecycle s))(n := Suc (lc_active (abs_lifecycle s) n))\<rparr>"
        using start xs log inf by (auto simp: abs_lifecycle_def fun_eq_iff)
      with start show ?thesis by (simp add: lc_step.lc_start)
    next
      case finish
      have inf: "in_flight m s = (if m = n then Suc (in_flight m t) else in_flight m t)"
        if "m \<in> set runner_ops" for m
        using bal [OF that] finish xs by auto
      have pos: "0 < lc_active (abs_lifecycle s) n"
        using inf [OF finish(1)] finish(1) by (simp add: abs_lifecycle_def)
      have "abs_lifecycle t =
          (abs_lifecycle s)\<lparr>lc_active := (lc_active (abs_lifecycle s))(n := lc_active (abs_lifecycle s) n - 1),
                             lc_finished := (lc_finished (abs_lifecycle s))(n := Suc (lc_finished (abs_lifecycle s) n))\<rparr>"
        using finish xs log inf by (auto simp: abs_lifecycle_def fun_eq_iff)
      with lc_step.lc_finish [OF finish(1) pos] show ?thesis by simp
    next
      case other
      have inf: "in_flight m t = in_flight m s" if "m \<in> set runner_ops" for m
        using bal [OF that] other that xs by auto
      have "abs_lifecycle t = abs_lifecycle s"
        using other xs log inf by (auto simp: abs_lifecycle_def fun_eq_iff)
      then show ?thesis by (simp add: lc_step.lc_idle)
    qed
  qed
qed

subsection \<open>Lemmas: what escapes uncaught\<close>

lemma bootstrap_pending_remove:
  "i < length (awaits s) \<Longrightarrow>
   bootstrap_pending (s\<lparr>awaits := remove_nth i (awaits s)\<rparr>)
     + (if awaits s ! i = AwaitTopIds then 1 else 0) = bootstrap_pending s"
  using count_where_remove_nth [of i "awaits s" "\<lambda>p. p = AwaitTopIds"]
  by (simp add: bootstrap_pending_def)

lemma loop_step_uncaught:
  assumes "loop_step (pure_reducer r) E s t" "quiet s" "timers_wf s" "env_messages E"
  shows "(uncaught t = uncaught s \<and> bootstrap_pending t = bootstrap_pending s) \<or>
         (bootstrap_pending t + 1 = bootstrap_pending s \<and>
          (uncaught t = uncaught s \<or> (\<exists>e. E e \<and> uncaught t = uncaught s @ [e])))"
  using assms(1)
proof cases
  case (call c)
  with assms(2) show ?thesis
    by (cases c) (simp_all add: model_simps bootstrap_pending_def)
next
  case (tick d)
  then show ?thesis by (simp add: bootstrap_pending_def)
next
  case (fire i)
  then have "i < length (timers s)" by (simp add: due_timer_bound)
  then have "timers s ! i \<in> set (timers s)" by simp
  with assms(3) consider
      "snd (timers s ! i) = IncrementAsyncDone delta_one"
    | "snd (timers s ! i) = DecrementAsyncDone delta_one"
    by (auto simp: timers_wf_def)
  then show ?thesis
    by cases (use fire assms(2) in \<open>simp_all add: model_simps bootstrap_pending_def\<close>)
next
  case (resolve_story i sid r')
  note cnt = bootstrap_pending_remove [OF resolve_story(2)]
  show ?thesis
  proof (cases r')
    case (Resolved v)
    with resolve_story assms(2) cnt show ?thesis by (simp add: model_simps bootstrap_pending_def)
  next
    case (Rejected e)
    with resolve_story assms(4) obtain m where "exn_message e = Inr m"
      by (auto simp: env_messages_def env_allows_def)
    with Rejected resolve_story assms(2) cnt show ?thesis by (simp add: model_simps bootstrap_pending_def)
  qed
next
  case (resolve_ids i r')
  note cnt = bootstrap_pending_remove [OF resolve_ids(2)]
  show ?thesis
  proof (cases r')
    case (Resolved v)
    with resolve_ids assms(2) cnt show ?thesis by (simp add: model_simps bootstrap_pending_def)
  next
    case (Rejected e)
    with resolve_ids cnt show ?thesis by (simp add: model_simps env_allows_def bootstrap_pending_def)
  qed
qed

subsection \<open>Lemmas: the timer queue\<close>

lemma run_call_timers:
  "clock (snd (run_call (host_dispatcher R) c s)) = clock s \<and>
   (timers (snd (run_call (host_dispatcher R) c s)) = timers s \<or>
    (\<exists>cb. timers (snd (run_call (host_dispatcher R) c s)) = timers s @ [(clock s + 1000, cb)]))"
  using run_call_method_timers [where R = R and s = s] by (cases c) auto

lemma timer_inv_step:
  assumes "loop_step R E s t" and inv: "timer_inv s"
  shows "timer_inv t"
  using assms(1)
proof cases
  case (call c)
  from run_call_timers [of R c s] call have c: "clock t = clock s"
    and ts: "timers t = timers s \<or> (\<exists>cb. timers t = timers s @ [(clock s + 1000, cb)])"
    by simp_all
  from ts show ?thesis
  proof
    assume "timers t = timers s"
    with inv c show ?thesis by (simp add: timer_inv_def)
  next
    assume "\<exists>cb. timers t = timers s @ [(clock s + 1000, cb)]"
    then obtain cb where "timers t = timers s @ [(clock s + 1000, cb)]" ..
    with inv c show ?thesis by (auto simp: timer_inv_def sorted_append)
  qed
next
  case (tick d)
  with inv show ?thesis by (auto simp: timer_inv_def)
next
  case (fire i)
  let ?s' = "s\<lparr>timers := remove_nth i (timers s)\<rparr>"
  from fire run_callback_frame [of R "snd (timers s ! i)" ?s']
  have "timers t = remove_nth i (timers s)" "clock t = clock s" by simp_all
  with inv set_remove_nth_subset [of i "timers s"] show ?thesis
    by (auto simp: timer_inv_def map_remove_nth sorted_remove_nth)
next
  case (resolve_story i sid r)
  with fetchStory_resume_frame [of R sid r "s\<lparr>awaits := remove_nth i (awaits s)\<rparr>"] inv
  show ?thesis by (simp add: timer_inv_def)
next
  case (resolve_ids i r)
  with enhance_resume_frame [of R r "s\<lparr>awaits := remove_nth i (awaits s)\<rparr>"] inv
  show ?thesis by (simp add: timer_inv_def)
qed

lemma reachable_timer_inv:
  "reachable R E isServer st0 s \<Longrightarrow> timer_inv s"
proof (induction rule: reachable.induct)
  case boot
  show ?case
    by (simp add: timer_inv_def boot_state_def init_sys_def enhance_initial_def sys_dispatch_eq
        await_call_def split: option.split)
next
  case (step s t)
  then show ?case by (blast intro: timer_inv_step)
qed

subsection \<open>The lifecycle guarantees of the runner\<close>

text \<open>
  C1. In every reachable state of a page whose store is well-behaved and whose remote
  failures are \<open>Error\<close>s, each operation run by the dispatcher (\<open>incrementAsync\<close>,
  \<open>decrementAsync\<close>, \<open>fetchStory\<close>) has dispatched exactly as many \<open>started\<close>
  descriptors as \<open>done\<close> and \<open>failed\<close> ones together, plus the invocations still in
  flight (armed timers, pending remote calls): no invocation has two terminal
  dispatches, and none has lost its terminal dispatch.
\<close>

theorem lifecycle_balanced:
  assumes "reachable (pure_reducer r) E isServer st0 s" and "clean_start st0"
    and "env_messages E" and "n \<in> set runner_ops"
  shows "started_count n (sys_log s) = terminal_count n (sys_log s) + in_flight n s"
  using reachable_lifecycle_inv [OF assms(1-3)] assms(4) by (simp add: lifecycle_inv_def)

text \<open>
  C2. In every reachable state of such a page, every prefix of the sequence of dispatched
  actions holds at least as many \<open>started\<close> descriptors of each runner operation as
  terminal ones: a \<open>done\<close> or \<open>failed\<close> is always preceded by its \<open>started\<close>.
\<close>

theorem started_before_terminal:
  assumes "reachable (pure_reducer r) E isServer st0 s" and "clean_start st0"
    and "env_messages E" and "n \<in> set runner_ops" and "k \<le> length (sys_log s)"
  shows "terminal_count n (take k (sys_log s)) \<le> started_count n (take k (sys_log s))"
proof -
  from reachable_lifecycle_inv [OF assms(1-3)] assms(4) have "started_first n (sys_log s)"
    by (simp add: lifecycle_inv_def)
  with assms(5) show ?thesis by (simp add: started_first_iff)
qed

text \<open>
  C3. From every reachable state of such a page, the host can run on (time passes, the
  armed timers fire, the pending remote calls settle) to a state with no pending work,
  whose log extends the current one and in which every runner operation has exactly as
  many terminal descriptors as \<open>started\<close> ones: every invocation eventually receives its
  \<open>done\<close> or \<open>failed\<close>.
\<close>

theorem lifecycle_completes:
  assumes "reachable (pure_reducer r) E isServer st0 s" and "clean_start st0" and "env_messages E"
  shows "\<exists>t. steps (pure_reducer r) E s t \<and> timers t = [] \<and> awaits t = [] \<and>
           (\<exists>xs. sys_log t = sys_log s @ xs) \<and>
           (\<forall>n \<in> set runner_ops. started_count n (sys_log t) = terminal_count n (sys_log t))"
proof -
  have inv: "lifecycle_inv s" using assms by (rule reachable_lifecycle_inv)
  let ?t0 = "s\<lparr>clock := clock s + sum_list (map fst (timers s))\<rparr>"
  have st0: "loop_step (pure_reducer r) E s ?t0" by (rule loop_step.tick)
  have inv0: "lifecycle_inv ?t0" using lifecycle_inv_step [OF inv st0 assms(3)] .
  have "fst tc \<le> sum_list (map fst (timers s))" if "tc \<in> set (timers s)" for tc
    using that by (auto intro: member_le_sum_list)
  then have "\<forall>tc \<in> set (timers ?t0). fst tc \<le> clock ?t0"
    by (auto intro: trans_le_add2)
  from drain_timers [OF inv0 assms(3) this] obtain t1 where
    st1: "steps (pure_reducer r) E ?t0 t1" and t1: "timers t1 = []" by blast
  have inv1: "lifecycle_inv t1" using steps_lifecycle [OF st1 inv0 assms(3)] by simp
  from drain_awaits [OF inv1 assms(3)] obtain t where
    st2: "steps (pure_reducer r) E t1 t" and t: "awaits t = []" "timers t = []"
    using t1 by auto
  have run: "steps (pure_reducer r) E s t"
    using st0 st1 st2 by (meson converse_rtranclp_into_rtranclp rtranclp_trans)
  from steps_lifecycle [OF run inv assms(3)] have invt: "lifecycle_inv t"
    and pre: "\<exists>xs. sys_log t = sys_log s @ xs" by simp_all
  have "in_flight n t = 0" for n using t by (simp add: in_flight_def)
  with invt have "\<forall>n \<in> set runner_ops. started_count n (sys_log t) = terminal_count n (sys_log t)"
    by (simp add: lifecycle_inv_def)
  with run t pre show ?thesis by blast
qed

subsection \<open>Error paths that escape the lifecycle\<close>

text \<open>
  C9. When the remote call of \<open>fetchStoryAsync\<close> rejects with \<open>undefined\<close> (a bare
  \<open>Promise.reject()\<close>), reading \<open>e.message\<close> in the \<open>catch\<close> throws a
  \<open>TypeError\<close>: the invocation leaves the in-flight set without any terminal dispatch,
  whatever the store, and the \<open>TypeError\<close> ends up uncaught.
\<close>

theorem fetchStory_undefined_rejection_lost:
  assumes "i < length (awaits s)" and "awaits s ! i = AwaitStory sid" and "E (Thrown JUndefined)"
  shows
    "let t = record_uncaught (fetchStory_resume (page_dispatcher R) sid (Rejected (Thrown JUndefined))
               (s\<lparr>awaits := remove_nth i (awaits s)\<rparr>))
     in loop_step R E s t \<and> sys_log t = sys_log s \<and>
        in_flight ''fetchStory'' t + 1 = in_flight ''fetchStory'' s \<and>
        uncaught t = uncaught s @ [type_error ''message'']"
proof -
  let ?s' = "s\<lparr>awaits := remove_nth i (awaits s)\<rparr>"
  have st: "loop_step R E s (record_uncaught (fetchStory_resume (page_dispatcher R) sid
              (Rejected (Thrown JUndefined)) ?s'))"
    using assms by (intro loop_step.resolve_story) (simp_all add: env_allows_def)
  have cnt: "in_flight ''fetchStory'' ?s' + 1 = in_flight ''fetchStory'' s"
    using in_flight_remove_await [OF assms(1), of "''fetchStory''"] assms(2) by simp
  show ?thesis
    using st cnt by (simp add: fetchStory_resume_rejected_throws)
qed

text \<open>
  C11. The \<open>done\<close> dispatch of \<open>incrementAsync\<close> runs in the timer callback, outside
  the method's \<open>try\<close>. When the store throws on it, the exception escapes uncaught and
  no \<open>failed\<close> is dispatched: the fault is not turned into a terminal descriptor, as the
  specification's caveat on deferred callbacks says.
\<close>

theorem incrementAsync_timer_fault_uncaught:
  assumes "due_timer s = Some i" and "snd (timers s ! i) = IncrementAsyncDone delta_one"
    and "R (st_state (sys_store s))
           (ac_done incrementAsync_ac (JObj [(''params'', delta_one), (''result'', JNum 1)])) = Inl e"
  shows
    "let t = record_uncaught (run_callback (page_dispatcher R) (snd (timers s ! i))
               (s\<lparr>timers := remove_nth i (timers s)\<rparr>))
     in loop_step R E s t \<and> sys_log t = sys_log s \<and> uncaught t = uncaught s @ [e] \<and>
        timers t = remove_nth i (timers s)"
proof -
  have st: "loop_step R E s (record_uncaught (run_callback (page_dispatcher R) (snd (timers s ! i))
              (s\<lparr>timers := remove_nth i (timers s)\<rparr>)))"
    using assms(1) by (rule loop_step.fire)
  show ?thesis
    using st assms(2,3)
    by (simp add: incrementAsync_timeout_def sys_dispatch_eq store_dispatch_def)
qed

subsection \<open>The timer queue\<close>

text \<open>
  C15. In every reachable state, whatever the store does, the timer that fires next is the
  one armed first among those still armed: the page's timers fire in the order their
  \<open>setTimeout\<close> calls were made.
\<close>

theorem timers_fire_in_arming_order:
  assumes "reachable R E isServer st0 s" and "due_timer s = Some i"
  shows "i = 0"
proof -
  from reachable_timer_inv [OF assms(1)] have "sorted (map fst (timers s))"
    by (simp add: timer_inv_def)
  moreover from assms(2) have "timers s \<noteq> []"
    by (auto simp: due_timer_def split: option.splits)
  ultimately have "earliest_timer (timers s) = Some 0" by (rule earliest_timer_sorted)
  with assms(2) show ?thesis by (simp add: due_timer_def split: if_splits)
qed

text \<open>
  C16. In every reachable state with an armed timer, the oldest armed timer is due once
  1000 ms have passed: no \<open>done\<close> of \<open>incrementAsync\<close> or \<open>decrementAsync\<close> waits
  longer than the page's fixed delay to become runnable.
\<close>

theorem timer_due_within_delay:
  assumes "reachable R E isServer st0 s" and "timers s \<noteq> []"
  shows "due_timer (s\<lparr>clock := clock s + 1000\<rparr>) = Some 0"
proof -
  from reachable_timer_inv [OF assms(1)] have
    sorted: "sorted (map fst (timers s))" and bound: "\<forall>tc \<in> set (timers s). fst tc \<le> clock s + 1000"
    by (simp_all add: timer_inv_def)
  from sorted assms(2) have e: "earliest_timer (timers s) = Some 0" by (rule earliest_timer_sorted)
  from assms(2) have "timers s ! 0 \<in> set (timers s)" by simp
  with bound e show ?thesis by (simp add: due_timer_def)
qed

subsection \<open>Refinement of the abstract lifecycle\<close>

text \<open>
  C19. The page refines the specification's lifecycle machine: over a fresh well-behaved
  store the bootstrap state is abstracted to the machine's initial state (no invocation
  started, active or finished), and every step of the page from a reachable state is
  abstracted to one step of the machine: an invocation starts (its \<open>started\<close>
  descriptor is dispatched as it becomes active, never one without the other), an active
  invocation finishes (one terminal descriptor), or nothing changes. A finish is never
  taken without an active invocation.
\<close>

theorem loop_refines_lifecycle:
  assumes "clean_start st0" and "env_messages E"
  shows "abs_lifecycle (boot_state (pure_reducer r) isServer st0) = lc_init \<and>
         (\<forall>s t. reachable (pure_reducer r) E isServer st0 s \<longrightarrow> loop_step (pure_reducer r) E s t \<longrightarrow>
                lc_step (abs_lifecycle s) (abs_lifecycle t))"
proof (intro conjI allI impI)
  show "abs_lifecycle (boot_state (pure_reducer r) isServer st0) = lc_init"
    using assms(1)
    by (simp add: abs_lifecycle_def lc_init_def clean_start_def boot_state_def init_sys_def
        model_simps in_flight_def fun_eq_iff)
next
  fix s t
  assume "reachable (pure_reducer r) E isServer st0 s" and step: "loop_step (pure_reducer r) E s t"
  from reachable_lifecycle_inv [OF this(1) assms] have "quiet s" "timers_wf s"
    by (simp_all add: lifecycle_inv_def)
  from loop_step_clean_effect [OF step this assms(2)] show "lc_step (abs_lifecycle s) (abs_lifecycle t)"
    by (rule clean_effect_lc_step)
qed

subsection \<open>Concurrent fetches settle independently\<close>

text \<open>
  C18. Concurrent invocations of \<open>fetchStoryAsync\<close> are independent (specification,
  section 5): in every reachable state over a well-behaved store, any pending fetch, in
  whatever order the calls settle, can settle next; it then dispatches exactly its own
  terminal descriptor, carrying its own story id as params (\<open>done\<close> with the story,
  or \<open>failed\<close> with the rejection's message), and every other pending call and armed
  timer stays as it was.
\<close>

theorem fetchStory_settles_own_invocation:
  assumes "reachable (pure_reducer r) E isServer st0 s" and "clean_start st0" and "env_messages E"
    and "i < length (awaits s)" and "awaits s ! i = AwaitStory sid"
  shows "(\<exists>t. loop_step (pure_reducer r) E s t \<and>
              sys_log t = sys_log s @ [ac_done fetchStory_ac (JObj [(''params'', JNum sid), (''result'', v)])] \<and>
              awaits t = remove_nth i (awaits s) \<and> timers t = timers s \<and> uncaught t = uncaught s) \<and>
         (E e \<longrightarrow> (\<exists>m t. exn_message e = Inr m \<and> loop_step (pure_reducer r) E s t \<and>
              sys_log t = sys_log s @ [ac_failed fetchStory_ac (JObj [(''params'', JNum sid), (''error'', m)])] \<and>
              awaits t = remove_nth i (awaits s) \<and> timers t = timers s \<and> uncaught t = uncaught s))"
proof (intro conjI impI)
  from reachable_lifecycle_inv [OF assms(1-3)] have q: "quiet s" by (simp add: lifecycle_inv_def)
  let ?s' = "s\<lparr>awaits := remove_nth i (awaits s)\<rparr>"
  let ?D = "page_dispatcher (pure_reducer r)"
  have "loop_step (pure_reducer r) E s (record_uncaught (fetchStory_resume ?D sid (Resolved v) ?s'))"
    using assms(4,5) by (rule loop_step.resolve_story) (simp add: env_allows_def)
  with q show "\<exists>t. loop_step (pure_reducer r) E s t \<and>
              sys_log t = sys_log s @ [ac_done fetchStory_ac (JObj [(''params'', JNum sid), (''result'', v)])] \<and>
              awaits t = remove_nth i (awaits s) \<and> timers t = timers s \<and> uncaught t = uncaught s"
    by (intro exI [of _ "record_uncaught (fetchStory_resume ?D sid (Resolved v) ?s')"]) (simp add: model_simps)
  assume "E e"
  with assms(3) obtain m where m: "exn_message e = Inr m" by (auto simp: env_messages_def)
  have "loop_step (pure_reducer r) E s (record_uncaught (fetchStory_resume ?D sid (Rejected e) ?s'))"
    using assms(4,5) by (rule loop_step.resolve_story) (simp add: env_allows_def \<open>E e\<close>)
  with q m show "\<exists>m t. exn_message e = Inr m \<and> loop_step (pure_reducer r) E s t \<and>
              sys_log t = sys_log s @ [ac_failed fetchStory_ac (JObj [(''params'', JNum sid), (''error'', m)])] \<and>
              awaits t = remove_nth i (awaits s) \<and> timers t = timers s \<and> uncaught t = uncaught s"
    by (intro exI [of _ m] exI [of _ "record_uncaught (fetchStory_resume ?D sid (Rejected e) ?s')"])
       (simp add: model_simps)
qed

subsection \<open>Exceptions that escape\<close>

text \<open>
  C22. On a well-behaved store with \<open>Error\<close> failures, no method, timer callback or
  continuation of the dispatcher ever lets an exception escape: in every reachable state
  at most one exception is uncaught, and it is a failure of the remote call the
  bootstrap hook awaits (the specification's BootstrapFailure, which is not recovered).
\<close>

theorem only_bootstrap_failure_escapes:
  assumes "reachable (pure_reducer r) E isServer st0 s" and "clean_start st0" and "env_messages E"
  shows "length (uncaught s) \<le> 1 \<and> (\<forall>e \<in> set (uncaught s). E e)"
proof -
  have "length (uncaught s) + bootstrap_pending s \<le> 1 \<and> (\<forall>e \<in> set (uncaught s). E e)"
    using assms(1)
  proof (induction rule: reachable.induct)
    case boot
    from assms(2) show ?case
      by (simp add: boot_state_def init_sys_def model_simps clean_start_def bootstrap_pending_def)
  next
    case (step s t)
    from reachable_lifecycle_inv [OF step.hyps(1) assms(2,3)] have "quiet s" "timers_wf s"
      by (simp_all add: lifecycle_inv_def)
    from loop_step_uncaught [OF step.hyps(2) this assms(3)] step.IH show ?case by (auto simp flip: length_0_conv)
  qed
  then show ?thesis by simp
qed

end
