(* ===== verification/Spec2Isabelle.thy ===== *)
theory Spec2Isabelle
  imports EventLoop
begin

text \<open>
  \<^bold>\<open>A verification development of the Redux page of next-typescript-example.\<close>

  \<^bold>\<open>The program.\<close> \<open>src/pages/redux.tsx\<close> is the one source file. It defines the
  class \<open>ReduxActionDispatcher\<close> (lines 12-86), whose methods the page's components call:
  \<open>increment\<close> and \<open>decrement\<close> dispatch one plain action; \<open>incrementAsync\<close> and
  \<open>decrementAsync\<close> dispatch \<open>started\<close>, arm a 1000 ms timer whose callback
  dispatches \<open>done\<close>, and wrap only the \<open>setTimeout\<close> call in a \<open>try\<close> whose
  \<open>catch\<close> would dispatch \<open>failed\<close>; \<open>fetchStoryAsync\<close> dispatches \<open>started\<close>,
  awaits \<open>API.fetchStory\<close>, and dispatches \<open>done\<close> or, in its \<open>catch\<close>,
  \<open>failed\<close> with \<open>e.message\<close>. The file also defines \<open>mapStateToProps\<close> and
  \<open>mapDispatchToProps\<close> (lines 88-99), which build the dispatcher over the store's
  \<open>dispatch\<close>, and the initial-props hook \<open>enhance\<close> (lines 101-112), which on the
  server dispatches \<open>increment({delta: 5})\<close> and then, on both legs, awaits
  \<open>API.fetchTopStoryIds\<close> and dispatches \<open>fetchTopStories.done\<close> with the first
  five identifiers. Everything else the page uses (action creators, the store, the API,
  the reducers, the HOC and \<open>withRedux\<close>) lives outside the sources.

  \<^bold>\<open>The theories.\<close>
  \<^item> \<open>Prelude\<close>: the \<open>model_simps\<close> collection and generic list operations
    (\<open>remove_nth\<close>, \<open>count_where\<close>) with their lemmas.
  \<^item> \<open>Values\<close>: JavaScript values (\<open>jval\<close>), exceptions (\<open>exn\<close>), property access
    \<open>get_property\<close> (\<open>params.delta\<close>), \<open>exn_message\<close> (\<open>e.message\<close>) and
    \<open>array_slice\<close> (\<open>slice(0, 5)\<close>).
  \<^item> \<open>Actions\<close> (from the specification, sections 3 and 4.1): descriptors as a record of a
    \<open>kind\<close> and a payload, the async factory \<open>create\<close>, the creators the page imports,
    and the type strings \<open>kind_string\<close>.
  \<^item> \<open>Store\<close> (from the specification, 4.2 and 6): the store record, \<open>store_dispatch\<close>
    (reducer, then listeners in order; a throwing reducer leaves the store unchanged, a
    throwing listener surfaces after the snapshot is installed), \<open>subscribe\<close>,
    \<open>unsubscribe\<close>. The reducer is a parameter; \<open>pure_reducer\<close> lifts a total one.
  \<^item> \<open>Runtime\<close> (from the specification, 5 and 9): the host state \<open>sys\<close> (store,
    clock, armed timers, awaited calls, uncaught exceptions), \<open>setTimeout\<close>, and which
    timer fires next (\<open>earliest_timer\<close>, \<open>due_timer\<close>). Timer callbacks and the code
    after an \<open>await\<close> are defunctionalised into \<open>callback\<close> and \<open>pending\<close>.
  \<^item> \<open>Dispatcher\<close>: the class, one definition per method and one per callback or
    continuation (\<open>incrementAsync_timeout\<close>, \<open>fetchStory_resume\<close>,
    \<open>fetchStory_catch\<close>), each returning the exception it throws or the rejection of its
    promise, with its behaviour on a well-behaved store and its frame lemmas.
  \<^item> \<open>Bootstrap\<close>: \<open>mapStateToProps\<close>, \<open>mapDispatchToProps\<close>, and the hook as
    \<open>enhance_initial\<close> (up to the \<open>await\<close>), \<open>enhance_resume\<close> and \<open>bootstrap\<close>.
  \<^item> \<open>EventLoop\<close>: the page at run time as the inductive relation \<open>loop_step\<close> (a UI
    call, a clock tick, the due timer firing, an awaited call settling with any value or
    with a rejection from a set \<open>E\<close>), the \<open>reachable\<close> states from the bootstrap, the
    lifecycle invariant, the timer-queue invariant, and the abstract lifecycle machine
    \<open>lc_step\<close> (started, active and finished invocations per operation) the page
    refines through \<open>abs_lifecycle\<close>.
  \<^item> This theory: this header, sample pages and the witnesses, and the specification's
    scenarios stated over the event loop.

  \<^bold>\<open>What is shown.\<close> Over a store whose reducer is total and whose listeners do not
  throw, and with remote failures that are \<open>Error\<close> objects: every reachable state
  balances each runner operation's \<open>started\<close> descriptors against its terminal ones and
  its invocations in flight (C1), every prefix of the log has its \<open>started\<close> first (C2),
  and the host can always run on until every invocation has its terminal descriptor (C3);
  the page refines the specification's lifecycle machine, each \<open>started\<close> descriptor
  being an abstract start and each terminal one an abstract finish (C19); concurrent
  fetches settle independently, each with its own id, in any order (C18). The scenarios of
  section 8 hold (C4-C6), and the decrement scenario likewise (C13). Whatever the store
  does, timers fire in arming order and are due within the 1000 ms delay (C15, C16). The
  fourteen descriptors the page can dispatch have pairwise distinct type strings (C12),
  plain calls are applied in order (C14), and the bootstrap keeps at most
  five identifiers in upstream order (C8) and lets a remote failure propagate (C17); that
  failure, at most once, is the only exception that ever escapes the page (C22).

  \<^bold>\<open>What the modelling found.\<close> The client leg of the hook dispatches
  \<open>fetchTopStories.done\<close>, where the specification says it dispatches nothing (C7), and
  it does so with no \<open>started\<close> (C21). A rejection with \<open>undefined\<close> makes the
  \<open>catch\<close> of \<open>fetchStoryAsync\<close> throw, losing the terminal dispatch (C9), and a
  rejection with a string or a number gives a \<open>failed\<close> whose \<open>error\<close> is
  \<open>undefined\<close>, not a string (C20); a listener that throws on \<open>done\<close> makes
  \<open>fetchStoryAsync\<close> dispatch \<open>failed\<close> as well (C10); a fault in a timer callback
  escapes uncaught (C11). The \<open>catch\<close> blocks of the timer methods wrap only
  \<open>setTimeout\<close>; the host model's \<open>set_timeout\<close> never fails, so in this model they
  are never entered.

  \<^bold>\<open>Bounds and termination.\<close> Every function of the model is structurally recursive
  or non-recursive, so no fuel is needed; the event loop, which need not terminate, is a
  relation, and termination of the pending work is the liveness statement C3, proved by
  constructing the run (one tick past the last fire time, then firing every timer and
  settling every call). The delay 1000 and the slice bound 5 are the source's constants.
  Numbers are \<open>int\<close>: the program's numbers are small integers.

  \<^bold>\<open>Not modelled.\<close> The rendering layer, \<open>withRedux\<close>/\<open>next-redux-wrapper\<close> and
  the \<open>initialProps\<close> HOC (library glue; only the functions passed to them are
  modelled); the remote API (its outcomes are the environment's choice in
  \<open>loop_step\<close>); the reducers (a parameter); subscription changes during a run (the
  listeners are fixed once the page runs); a synchronous throw of \<open>API.fetchStory\<close>
  inside the \<open>try\<close> is modelled as a rejection settled on a later step, which changes
  only timing. The action creators, store and host are modelled from the specification
  because their code is not in the sources.

  \<^bold>\<open>Plan for later sittings.\<close> State the store contract as an interface that
  \<open>store_dispatch\<close> discharges; model the page's state (\<open>RootState\<close>) with the
  reducers the specification describes and prove \<open>mapStateToProps\<close> against it; add
  subscription steps to the event loop; extend the refinement to traces of descriptors per
  invocation (the payload of each terminal descriptor against its \<open>started\<close>).
\<close>

subsection \<open>A sample page for the witnesses\<close>

text \<open>
  The witnesses run the page over a store whose reducer keeps the snapshot unchanged
  (the lifecycle does not look into the snapshot) and an environment whose remote
  failures are the \<open>Error("timeout")\<close> of the specification's scenario.
\<close>

definition keep_reducer :: "int reducer" where
  "keep_reducer = pure_reducer (\<lambda>s a. s)"

definition timeout_error :: exn where
  "timeout_error = JsError ''Error'' ''timeout''"

definition timeout_env :: "exn \<Rightarrow> bool" where
  "timeout_env e \<longleftrightarrow> e = timeout_error"

definition fetch_42_state :: "int sys" where
  "fetch_42_state =
     record_uncaught (run_call (page_dispatcher keep_reducer) (CallFetchStoryAsync 42)
       (boot_state keep_reducer True (create_store 0)))"

definition boot_server :: "int sys" where
  "boot_server = boot_state keep_reducer True (create_store 0)"

definition fresh_host :: "int sys" where
  "fresh_host = init_sys (create_store 0)"

definition undefined_env :: "exn \<Rightarrow> bool" where
  "undefined_env e \<longleftrightarrow> e = Thrown JUndefined"

definition render_error :: exn where
  "render_error = JsError ''Error'' ''render failed''"

definition loud_host :: "int sys" where
  "loud_host = init_sys ((create_store 0)\<lparr>st_listeners := [(0, \<lambda>s. Some render_error)]\<rparr>)"

definition reducer_error :: exn where
  "reducer_error = JsError ''Error'' ''unknown action''"

definition done_throws :: "int reducer" where
  "done_throws s a = (if act_kind a = Async ''incrementAsync'' Done then Inl reducer_error else Inr s)"

definition armed_host :: "int sys" where
  "armed_host = fresh_host\<lparr>timers := [(0, IncrementAsyncDone delta_one)]\<rparr>"

definition armed_42 :: "int sys" where
  "armed_42 = record_uncaught (run_call (page_dispatcher keep_reducer) CallIncrementAsync
                 (boot_state keep_reducer True (create_store 0)))"

text \<open>Two concurrent fetches, of story 42 and then of story 7, both pending.\<close>

definition two_fetches :: "int sys" where
  "two_fetches = record_uncaught (run_call (page_dispatcher keep_reducer) (CallFetchStoryAsync 7) fetch_42_state)"

text \<open>The server bootstrap whose remote call of top story identifiers timed out.\<close>

definition boot_failed :: "int sys" where
  "boot_failed =
     record_uncaught (enhance_resume keep_reducer (Rejected timeout_error)
       (boot_server\<lparr>awaits := remove_nth 0 (awaits boot_server)\<rparr>))"

lemma timeout_env_messages: "env_messages timeout_env"
  by (simp add: env_messages_def timeout_env_def timeout_error_def)

lemma create_store_clean: "clean_start (create_store s0)"
  by (simp add: clean_start_def create_store_def listeners_quiet_def)

lemma fresh_host_quiet: "quiet fresh_host"
  by (simp add: fresh_host_def init_sys_def create_store_def listeners_quiet_def)

lemma fetch_42_reachable: "reachable keep_reducer timeout_env True (create_store 0) fetch_42_state"
  unfolding fetch_42_state_def by (rule reachable.step [OF reachable.boot loop_step.call])

lemma fetch_42_log:
  "sys_log fetch_42_state =
     [increment_ac (JObj [(''delta'', JNum 5)]), ac_started fetchStory_ac (JNum 42)]"
  by (simp add: fetch_42_state_def keep_reducer_def boot_state_def init_sys_def create_store_def
      model_simps listeners_quiet_def)

theorem lifecycle_balanced_witness:
  "started_count ''fetchStory'' (sys_log fetch_42_state) =
   terminal_count ''fetchStory'' (sys_log fetch_42_state) + in_flight ''fetchStory'' fetch_42_state"
  using EventLoop.lifecycle_balanced [OF fetch_42_reachable [unfolded keep_reducer_def]
      create_store_clean timeout_env_messages, of "''fetchStory''"]
  by (simp add: runner_ops_def keep_reducer_def)

theorem started_before_terminal_witness:
  "terminal_count ''fetchStory'' (take 2 (sys_log fetch_42_state)) \<le>
   started_count ''fetchStory'' (take 2 (sys_log fetch_42_state))"
  using EventLoop.started_before_terminal [OF fetch_42_reachable [unfolded keep_reducer_def]
      create_store_clean timeout_env_messages, of "''fetchStory''" 2]
  by (simp add: runner_ops_def fetch_42_log)

theorem lifecycle_completes_witness:
  "\<exists>t. steps keep_reducer timeout_env fetch_42_state t \<and> timers t = [] \<and> awaits t = [] \<and>
       (\<exists>xs. sys_log t = sys_log fetch_42_state @ xs) \<and>
       (\<forall>n \<in> set runner_ops. started_count n (sys_log t) = terminal_count n (sys_log t))"
  using EventLoop.lifecycle_completes [OF fetch_42_reachable [unfolded keep_reducer_def]
      create_store_clean timeout_env_messages]
  by (simp add: keep_reducer_def)

section \<open>The specification's scenarios\<close>

text \<open>
  C4. Invoking \<open>incrementAsync\<close> dispatches \<open>started({delta: 1})\<close> at once and arms one
  timer; before 1000 ms have passed no timer is due; at 1000 ms the timer is due and
  firing it dispatches \<open>done({params: {delta: 1}, result: 1})\<close>, and nothing else is
  dispatched, in particular no \<open>failed\<close>.
\<close>

theorem incrementAsync_scenario:
  assumes "quiet s" and "timers s = []"
  shows
    "let D = page_dispatcher (pure_reducer r);
         s1 = record_uncaught (run_call D CallIncrementAsync s);
         s2 = s1\<lparr>clock := clock s1 + 1000\<rparr>;
         s3 = record_uncaught (run_callback D (snd (timers s2 ! 0)) (s2\<lparr>timers := remove_nth 0 (timers s2)\<rparr>))
     in loop_step (pure_reducer r) E s s1 \<and> loop_step (pure_reducer r) E s1 s2 \<and>
        loop_step (pure_reducer r) E s2 s3 \<and>
        sys_log s1 = sys_log s @ [ac_started incrementAsync_ac (JObj [(''delta'', JNum 1)])] \<and>
        (\<forall>d < 1000. due_timer (s1\<lparr>clock := clock s1 + d\<rparr>) = None) \<and>
        due_timer s2 = Some 0 \<and>
        sys_log s3 = sys_log s @
          [ac_started incrementAsync_ac (JObj [(''delta'', JNum 1)]),
           ac_done incrementAsync_ac
             (JObj [(''params'', JObj [(''delta'', JNum 1)]), (''result'', JNum 1)])] \<and>
        timers s3 = []"
proof -
  let ?D = "page_dispatcher (pure_reducer r)"
  let ?s1 = "record_uncaught (run_call ?D CallIncrementAsync s)"
  let ?s2 = "?s1\<lparr>clock := clock ?s1 + 1000\<rparr>"
  have t1: "timers ?s1 = [(clock s + 1000, IncrementAsyncDone delta_one)]" and c1: "clock ?s1 = clock s"
    using assms by (simp_all add: model_simps)
  have due: "due_timer ?s2 = Some 0" using t1 c1 by (simp add: due_timer_def)
  have early: "\<forall>d < 1000. due_timer (?s1\<lparr>clock := clock ?s1 + d\<rparr>) = None"
    using t1 c1 by (simp add: due_timer_def)
  have st1: "loop_step (pure_reducer r) E s ?s1" by (rule loop_step.call)
  have st2: "loop_step (pure_reducer r) E ?s1 ?s2" by (rule loop_step.tick)
  have st3: "loop_step (pure_reducer r) E ?s2
     (record_uncaught (run_callback ?D (snd (timers ?s2 ! 0)) (?s2\<lparr>timers := remove_nth 0 (timers ?s2)\<rparr>)))"
    using due by (rule loop_step.fire)
  show ?thesis
    using assms due early t1 c1 st1 st2 st3
    by (simp add: Let_def model_simps remove_nth_def)
qed

text \<open>
  C5. Invoking \<open>fetchStoryAsync(42)\<close> dispatches \<open>started(42)\<close>; when the remote call
  rejects with \<open>Error("timeout")\<close>, the continuation dispatches
  \<open>failed({params: 42, error: "timeout"})\<close> and nothing else, and no call stays pending.
\<close>

theorem fetchStory_timeout_scenario:
  assumes "quiet s" and "E (JsError ''Error'' ''timeout'')"
  shows
    "let D = page_dispatcher (pure_reducer r);
         s1 = record_uncaught (run_call D (CallFetchStoryAsync 42) s);
         i = length (awaits s);
         s2 = record_uncaught (fetchStory_resume D 42 (Rejected (JsError ''Error'' ''timeout''))
                (s1\<lparr>awaits := remove_nth i (awaits s1)\<rparr>))
     in loop_step (pure_reducer r) E s s1 \<and> loop_step (pure_reducer r) E s1 s2 \<and>
        sys_log s2 = sys_log s @
          [ac_started fetchStory_ac (JNum 42),
           ac_failed fetchStory_ac (JObj [(''params'', JNum 42), (''error'', JStr ''timeout'')])] \<and>
        awaits s2 = awaits s"
proof -
  let ?D = "page_dispatcher (pure_reducer r)"
  let ?s1 = "record_uncaught (run_call ?D (CallFetchStoryAsync 42) s)"
  have a1: "awaits ?s1 = awaits s @ [AwaitStory 42]" using assms(1) by (simp add: model_simps)
  have st2: "loop_step (pure_reducer r) E ?s1
      (record_uncaught (fetchStory_resume ?D 42 (Rejected (JsError ''Error'' ''timeout''))
         (?s1\<lparr>awaits := remove_nth (length (awaits s)) (awaits ?s1)\<rparr>)))"
    using a1 assms(2) by (intro loop_step.resolve_story) (simp_all add: env_allows_def)
  have st1: "loop_step (pure_reducer r) E s ?s1" by (rule loop_step.call)
  show ?thesis
    using assms a1 st1 st2 by (simp add: Let_def model_simps remove_nth_def)
qed

text \<open>
  C13. Invoking \<open>decrementAsync\<close> dispatches \<open>decrementAsync.started({delta: 1})\<close> at
  once and arms one timer; before 1000 ms have passed no timer is due; at 1000 ms it is
  due and firing it dispatches \<open>decrementAsync.done({params: {delta: 1}, result: 1})\<close>
  (the reducer, not the page, subtracts), and nothing else, in particular no \<open>failed\<close>.
\<close>

theorem decrementAsync_scenario:
  assumes "quiet s" and "timers s = []"
  shows
    "let D = page_dispatcher (pure_reducer r);
         s1 = record_uncaught (run_call D CallDecrementAsync s);
         s2 = s1\<lparr>clock := clock s1 + 1000\<rparr>;
         s3 = record_uncaught (run_callback D (snd (timers s2 ! 0)) (s2\<lparr>timers := remove_nth 0 (timers s2)\<rparr>))
     in loop_step (pure_reducer r) E s s1 \<and> loop_step (pure_reducer r) E s1 s2 \<and>
        loop_step (pure_reducer r) E s2 s3 \<and>
        sys_log s1 = sys_log s @ [ac_started decrementAsync_ac (JObj [(''delta'', JNum 1)])] \<and>
        (\<forall>d < 1000. due_timer (s1\<lparr>clock := clock s1 + d\<rparr>) = None) \<and>
        due_timer s2 = Some 0 \<and>
        sys_log s3 = sys_log s @
          [ac_started decrementAsync_ac (JObj [(''delta'', JNum 1)]),
           ac_done decrementAsync_ac
             (JObj [(''params'', JObj [(''delta'', JNum 1)]), (''result'', JNum 1)])] \<and>
        timers s3 = []"
proof -
  let ?D = "page_dispatcher (pure_reducer r)"
  let ?s1 = "record_uncaught (run_call ?D CallDecrementAsync s)"
  let ?s2 = "?s1\<lparr>clock := clock ?s1 + 1000\<rparr>"
  have t1: "timers ?s1 = [(clock s + 1000, DecrementAsyncDone delta_one)]" and c1: "clock ?s1 = clock s"
    using assms by (simp_all add: model_simps)
  have due: "due_timer ?s2 = Some 0" using t1 c1 by (simp add: due_timer_def)
  have early: "\<forall>d < 1000. due_timer (?s1\<lparr>clock := clock ?s1 + d\<rparr>) = None"
    using t1 c1 by (simp add: due_timer_def)
  have st1: "loop_step (pure_reducer r) E s ?s1" by (rule loop_step.call)
  have st2: "loop_step (pure_reducer r) E ?s1 ?s2" by (rule loop_step.tick)
  have st3: "loop_step (pure_reducer r) E ?s2
     (record_uncaught (run_callback ?D (snd (timers ?s2 ! 0)) (?s2\<lparr>timers := remove_nth 0 (timers ?s2)\<rparr>)))"
    using due by (rule loop_step.fire)
  show ?thesis
    using assms due early t1 c1 st1 st2 st3
    by (simp add: Let_def model_simps remove_nth_def)
qed

theorem incrementAsync_scenario_witness:
  "quiet boot_server \<and> timers boot_server = [] \<and>
   (let D = page_dispatcher keep_reducer;
        s1 = record_uncaught (run_call D CallIncrementAsync boot_server);
        s2 = s1\<lparr>clock := clock s1 + 1000\<rparr>;
        s3 = record_uncaught (run_callback D (snd (timers s2 ! 0)) (s2\<lparr>timers := remove_nth 0 (timers s2)\<rparr>))
    in sys_log s3 =
         [increment_ac (JObj [(''delta'', JNum 5)]),
          ac_started incrementAsync_ac (JObj [(''delta'', JNum 1)]),
          ac_done incrementAsync_ac (JObj [(''params'', JObj [(''delta'', JNum 1)]), (''result'', JNum 1)])])"
proof -
  have h: "quiet boot_server" "timers boot_server = []"
    by (simp_all add: boot_server_def boot_state_def keep_reducer_def init_sys_def create_store_def
        listeners_quiet_def model_simps)
  have log0: "sys_log boot_server = [increment_ac (JObj [(''delta'', JNum 5)])]"
    by (simp add: boot_server_def boot_state_def keep_reducer_def init_sys_def create_store_def
        listeners_quiet_def model_simps)
  show ?thesis
    using incrementAsync_scenario [OF h, of "\<lambda>s a. s" timeout_env] h log0
    by (simp add: Let_def keep_reducer_def)
qed

theorem fetchStory_timeout_scenario_witness:
  "quiet boot_server \<and> timeout_env (JsError ''Error'' ''timeout'') \<and>
   (let D = page_dispatcher keep_reducer;
        s1 = record_uncaught (run_call D (CallFetchStoryAsync 42) boot_server);
        s2 = record_uncaught (fetchStory_resume D 42 (Rejected (JsError ''Error'' ''timeout''))
               (s1\<lparr>awaits := remove_nth 1 (awaits s1)\<rparr>))
    in sys_log s2 =
         [increment_ac (JObj [(''delta'', JNum 5)]),
          ac_started fetchStory_ac (JNum 42),
          ac_failed fetchStory_ac (JObj [(''params'', JNum 42), (''error'', JStr ''timeout'')])])"
proof -
  have h: "quiet boot_server" "timeout_env (JsError ''Error'' ''timeout'')"
    by (simp_all add: boot_server_def boot_state_def keep_reducer_def init_sys_def create_store_def
        listeners_quiet_def model_simps timeout_env_def timeout_error_def)
  have log0: "sys_log boot_server = [increment_ac (JObj [(''delta'', JNum 5)])]"
    and aw0: "awaits boot_server = [AwaitTopIds]"
    by (simp_all add: boot_server_def boot_state_def keep_reducer_def init_sys_def create_store_def
        listeners_quiet_def model_simps)
  show ?thesis
    using fetchStory_timeout_scenario [of boot_server timeout_env "\<lambda>s a. s", OF h] h log0 aw0
    by (simp add: Let_def keep_reducer_def)
qed

theorem bootstrap_server_scenario_witness:
  "quiet fresh_host \<and>
   sys_log (snd (bootstrap keep_reducer True (Resolved [1, 2, 3, 4, 5, 6, 7]) fresh_host)) =
     [increment_ac (JObj [(''delta'', JNum 5)]),
      ac_done fetchTopStories_ac
        (JObj [(''params'', JObj []), (''result'', JArr [JNum 1, JNum 2, JNum 3, JNum 4, JNum 5])])]"
  using Bootstrap.bootstrap_server_scenario [OF fresh_host_quiet, of "\<lambda>s a. s"] fresh_host_quiet
  by (simp add: keep_reducer_def fresh_host_def init_sys_def create_store_def)

theorem bootstrap_client_dispatches_witness:
  "quiet fresh_host \<and>
   sys_log (snd (bootstrap keep_reducer False (Resolved [1, 2, 3, 4, 5, 6, 7]) fresh_host)) =
     [ac_done fetchTopStories_ac
        (JObj [(''params'', JObj []), (''result'', JArr [JNum 1, JNum 2, JNum 3, JNum 4, JNum 5])])]"
  using Bootstrap.bootstrap_client_dispatches [OF fresh_host_quiet, of "\<lambda>s a. s" "[1, 2, 3, 4, 5, 6, 7]"]
    fresh_host_quiet
  by (simp add: keep_reducer_def fresh_host_def init_sys_def create_store_def)

theorem bootstrap_truncates_witness:
  "quiet fresh_host \<and>
   (\<exists>ids. last (sys_log (snd (bootstrap keep_reducer False (Resolved [3, 1, 4]) fresh_host))) =
            ac_done fetchTopStories_ac (JObj [(''params'', JObj []), (''result'', JArr (map JNum ids))]) \<and>
          length ids = min 5 (length [3, 1, 4 :: int]) \<and> ids @ drop (length ids) [3, 1, 4] = [3, 1, 4])"
  unfolding keep_reducer_def
  using Bootstrap.bootstrap_truncates [OF fresh_host_quiet, of "\<lambda>s a. s" False "[3, 1, 4]"]
    fresh_host_quiet
  by blast

section \<open>Witnesses of the error paths\<close>

lemma fetch_42_awaits: "awaits fetch_42_state = [AwaitTopIds, AwaitStory 42]"
  by (simp add: fetch_42_state_def keep_reducer_def boot_state_def init_sys_def create_store_def
      model_simps listeners_quiet_def)

theorem fetchStory_undefined_rejection_lost_witness:
  "1 < length (awaits fetch_42_state) \<and> awaits fetch_42_state ! 1 = AwaitStory 42 \<and>
   undefined_env (Thrown JUndefined) \<and>
   (let t = record_uncaught (fetchStory_resume (page_dispatcher keep_reducer) 42 (Rejected (Thrown JUndefined))
              (fetch_42_state\<lparr>awaits := remove_nth 1 (awaits fetch_42_state)\<rparr>))
    in sys_log t = [increment_ac (JObj [(''delta'', JNum 5)]), ac_started fetchStory_ac (JNum 42)] \<and>
       uncaught t = [type_error ''message''])"
proof -
  have h: "1 < length (awaits fetch_42_state)" "awaits fetch_42_state ! 1 = AwaitStory 42"
    "undefined_env (Thrown JUndefined)"
    by (simp_all add: fetch_42_awaits undefined_env_def)
  have u: "uncaught fetch_42_state = []"
    by (simp add: fetch_42_state_def keep_reducer_def boot_state_def init_sys_def create_store_def
        model_simps listeners_quiet_def)
  show ?thesis
    using EventLoop.fetchStory_undefined_rejection_lost
      [where s = fetch_42_state and i = 1 and sid = 42 and E = undefined_env and R = keep_reducer, OF h] h fetch_42_log u
    by (simp add: Let_def)
qed

theorem fetchStory_listener_fault_both_terminals_witness:
  "notify (st_listeners (sys_store loud_host))
     (st_state (sys_store loud_host)) = Some render_error \<and>
   exn_message render_error = Inr (JStr ''render failed'') \<and>
   sys_log (snd (fetchStory_resume (store_dispatcher (\<lambda>s a. s)) 7 (Resolved JNull) loud_host)) =
     [ac_done fetchStory_ac (JObj [(''params'', JNum 7), (''result'', JNull)]),
      ac_failed fetchStory_ac (JObj [(''params'', JNum 7), (''error'', JStr ''render failed'')])]"
proof -
  have h: "notify (st_listeners (sys_store loud_host))
       ((\<lambda>s a. s) (st_state (sys_store loud_host))
         (ac_done fetchStory_ac (JObj [(''params'', JNum 7), (''result'', JNull)]))) = Some render_error"
    "exn_message render_error = Inr (JStr ''render failed'')"
    by (simp_all add: loud_host_def init_sys_def create_store_def render_error_def)
  have l: "sys_log loud_host = []" by (simp add: loud_host_def init_sys_def create_store_def)
  show ?thesis
    using Dispatcher.fetchStory_listener_fault_both_terminals
      [where s = loud_host and r = "\<lambda>s a. s" and sid = 7 and v = JNull and e = render_error
        and m = "JStr ''render failed''", OF h] h l by simp
qed

theorem incrementAsync_timer_fault_uncaught_witness:
  "due_timer armed_host = Some 0 \<and> snd (timers armed_host ! 0) = IncrementAsyncDone delta_one \<and>
   done_throws (st_state (sys_store armed_host))
     (ac_done incrementAsync_ac (JObj [(''params'', delta_one), (''result'', JNum 1)])) = Inl reducer_error \<and>
   (let t = record_uncaught (run_callback (page_dispatcher done_throws) (snd (timers armed_host ! 0))
              (armed_host\<lparr>timers := remove_nth 0 (timers armed_host)\<rparr>))
    in sys_log t = [] \<and> uncaught t = [reducer_error])"
proof -
  have h: "due_timer armed_host = Some 0" "snd (timers armed_host ! 0) = IncrementAsyncDone delta_one"
    "done_throws (st_state (sys_store armed_host))
       (ac_done incrementAsync_ac (JObj [(''params'', delta_one), (''result'', JNum 1)])) = Inl reducer_error"
    by (simp_all add: armed_host_def fresh_host_def init_sys_def due_timer_def done_throws_def model_simps)
  have f: "sys_log armed_host = []" "uncaught armed_host = []"
    by (simp_all add: armed_host_def fresh_host_def init_sys_def create_store_def)
  show ?thesis
    using EventLoop.incrementAsync_timer_fault_uncaught
      [where s = armed_host and i = 0 and R = done_throws and e = reducer_error and E = undefined_env, OF h] h f by (simp add: Let_def)
qed

section \<open>Witnesses of the store and timer properties\<close>

theorem increment_decrement_sequential_witness:
  "quiet fresh_host \<and>
   (let s1 = snd (increment (store_dispatcher (\<lambda>s a. s + 1)) 3 fresh_host);
        s2 = snd (decrement (store_dispatcher (\<lambda>s a. s + 1)) 4 s1)
    in st_state (sys_store s2) = 2 \<and>
       sys_log s2 = [increment_ac (JObj [(''delta'', JNum 3)]), decrement_ac (JObj [(''delta'', JNum 4)])])"
  using Dispatcher.increment_decrement_sequential [OF fresh_host_quiet, of 3 4 "\<lambda>s a. s + 1"]
    fresh_host_quiet
  by (simp add: Let_def fresh_host_def init_sys_def create_store_def)

lemma armed_42_reachable: "reachable keep_reducer timeout_env True (create_store 0) armed_42"
  unfolding armed_42_def by (rule reachable.step [OF reachable.boot loop_step.call])

lemma armed_42_timers: "timers armed_42 = [(1000, IncrementAsyncDone delta_one)]"
  by (simp add: armed_42_def keep_reducer_def boot_state_def init_sys_def create_store_def
      model_simps listeners_quiet_def)

theorem timers_fire_in_arming_order_witness:
  "due_timer (armed_42\<lparr>clock := 1000\<rparr>) = Some 0"
proof -
  have r: "reachable keep_reducer timeout_env True (create_store 0) (armed_42\<lparr>clock := 1000\<rparr>)"
  proof -
    have "clock armed_42 = 0"
      by (simp add: armed_42_def keep_reducer_def boot_state_def init_sys_def create_store_def
          model_simps listeners_quiet_def)
    then have "armed_42\<lparr>clock := 1000\<rparr> = armed_42\<lparr>clock := clock armed_42 + 1000\<rparr>" by simp
    then show ?thesis using armed_42_reachable by (metis loop_step.tick reachable.step)
  qed
  have due: "due_timer (armed_42\<lparr>clock := 1000\<rparr>) = Some 0"
    by (simp add: due_timer_def armed_42_timers)
  from EventLoop.timers_fire_in_arming_order [OF r due] due show ?thesis by simp
qed

theorem timer_due_within_delay_witness:
  "timers armed_42 \<noteq> [] \<and> due_timer (armed_42\<lparr>clock := clock armed_42 + 1000\<rparr>) = Some 0"
  using EventLoop.timer_due_within_delay [OF armed_42_reachable] armed_42_timers by simp

section \<open>Witnesses of the bootstrap failure and the refinement\<close>

theorem bootstrap_rejection_propagates_witness:
  "quiet fresh_host \<and>
   fst (bootstrap keep_reducer True (Rejected timeout_error) fresh_host) = Some timeout_error \<and>
   sys_log (snd (bootstrap keep_reducer True (Rejected timeout_error) fresh_host)) =
     [increment_ac (JObj [(''delta'', JNum 5)])]"
  using Bootstrap.bootstrap_rejection_propagates [OF fresh_host_quiet, of "\<lambda>s a. s" True timeout_error]
    fresh_host_quiet
  by (simp add: keep_reducer_def fresh_host_def init_sys_def create_store_def)

theorem bootstrap_done_without_started_witness:
  "quiet fresh_host \<and>
   kind_count (Async ''fetchTopStories'' Started)
     (sys_log (snd (bootstrap keep_reducer False (Resolved [9]) fresh_host))) = 0 \<and>
   kind_count (Async ''fetchTopStories'' Done)
     (sys_log (snd (bootstrap keep_reducer False (Resolved [9]) fresh_host))) = 1"
  using Bootstrap.bootstrap_done_without_started [OF fresh_host_quiet, of "\<lambda>s a. s" False "[9]"]
    fresh_host_quiet
  by (simp add: keep_reducer_def fresh_host_def init_sys_def create_store_def)

theorem loop_refines_lifecycle_witness:
  "abs_lifecycle (boot_state keep_reducer True (create_store 0)) = lc_init \<and>
   lc_step (abs_lifecycle (boot_state keep_reducer True (create_store 0))) (abs_lifecycle fetch_42_state)"
proof -
  have r: "reachable keep_reducer timeout_env True (create_store 0) (boot_state keep_reducer True (create_store 0))"
    by (rule reachable.boot)
  have st: "loop_step keep_reducer timeout_env (boot_state keep_reducer True (create_store 0)) fetch_42_state"
    unfolding fetch_42_state_def by (rule loop_step.call)
  note h = EventLoop.loop_refines_lifecycle
      [of "create_store (0::int)" timeout_env "\<lambda>s a. s" True, OF create_store_clean timeout_env_messages]
  from h r st have "lc_step (abs_lifecycle (boot_state keep_reducer True (create_store 0)))
      (abs_lifecycle fetch_42_state)"
    unfolding keep_reducer_def by blast
  with h show ?thesis unfolding keep_reducer_def by simp
qed

section \<open>Witness of what escapes uncaught\<close>

lemma boot_server_awaits: "awaits boot_server = [AwaitTopIds]"
  by (simp add: boot_server_def keep_reducer_def boot_state_def init_sys_def create_store_def
      model_simps listeners_quiet_def)

lemma boot_failed_reachable: "reachable keep_reducer timeout_env True (create_store 0) boot_failed"
proof -
  have "awaits (boot_state keep_reducer True (create_store 0)) = [AwaitTopIds]"
    using boot_server_awaits by (simp add: boot_server_def)
  then show ?thesis
    unfolding boot_failed_def boot_server_def
    by (intro reachable.step [OF reachable.boot] loop_step.resolve_ids)
       (simp_all add: env_allows_def timeout_env_def)
qed

theorem only_bootstrap_failure_escapes_witness:
  "uncaught boot_failed = [timeout_error] \<and> length (uncaught boot_failed) \<le> 1 \<and>
   list_all timeout_env (uncaught boot_failed)"
proof -
  have "uncaught boot_failed = [timeout_error]"
    by (simp add: boot_failed_def boot_server_def keep_reducer_def boot_state_def init_sys_def
        create_store_def model_simps listeners_quiet_def)
  moreover have "length (uncaught boot_failed) \<le> 1 \<and> (\<forall>e \<in> set (uncaught boot_failed). timeout_env e)"
    using EventLoop.only_bootstrap_failure_escapes [OF boot_failed_reachable [unfolded keep_reducer_def]
        create_store_clean timeout_env_messages] by blast
  ultimately show ?thesis by (simp add: list_all_iff)
qed

section \<open>Witnesses of the decrement scenario and of concurrent fetches\<close>

theorem decrementAsync_scenario_witness:
  "quiet boot_server \<and> timers boot_server = [] \<and>
   (let D = page_dispatcher keep_reducer;
        s1 = record_uncaught (run_call D CallDecrementAsync boot_server);
        s2 = s1\<lparr>clock := clock s1 + 1000\<rparr>;
        s3 = record_uncaught (run_callback D (snd (timers s2 ! 0)) (s2\<lparr>timers := remove_nth 0 (timers s2)\<rparr>))
    in sys_log s3 =
         [increment_ac (JObj [(''delta'', JNum 5)]),
          ac_started decrementAsync_ac (JObj [(''delta'', JNum 1)]),
          ac_done decrementAsync_ac (JObj [(''params'', JObj [(''delta'', JNum 1)]), (''result'', JNum 1)])])"
proof -
  have h: "quiet boot_server" "timers boot_server = []"
    by (simp_all add: boot_server_def boot_state_def keep_reducer_def init_sys_def create_store_def
        listeners_quiet_def model_simps)
  have log0: "sys_log boot_server = [increment_ac (JObj [(''delta'', JNum 5)])]"
    by (simp add: boot_server_def boot_state_def keep_reducer_def init_sys_def create_store_def
        listeners_quiet_def model_simps)
  show ?thesis
    using decrementAsync_scenario [OF h, of "\<lambda>s a. s" timeout_env] h log0
    by (simp add: Let_def keep_reducer_def)
qed

lemma two_fetches_reachable: "reachable keep_reducer timeout_env True (create_store 0) two_fetches"
  unfolding two_fetches_def by (rule reachable.step [OF fetch_42_reachable loop_step.call])

lemma two_fetches_awaits: "awaits two_fetches = [AwaitTopIds, AwaitStory 42, AwaitStory 7]"
  using fetch_42_awaits
  by (simp add: two_fetches_def keep_reducer_def fetch_42_state_def boot_state_def init_sys_def
      create_store_def model_simps listeners_quiet_def)

theorem fetchStory_settles_own_invocation_witness:
  "(\<exists>t. loop_step keep_reducer timeout_env two_fetches t \<and>
       sys_log t = sys_log two_fetches @
         [ac_done fetchStory_ac (JObj [(''params'', JNum 7), (''result'', JStr ''story'')])] \<and>
       awaits t = [AwaitTopIds, AwaitStory 42]) \<and>
   (\<exists>t. loop_step keep_reducer timeout_env two_fetches t \<and>
       sys_log t = sys_log two_fetches @
         [ac_failed fetchStory_ac (JObj [(''params'', JNum 7), (''error'', JStr ''timeout'')])] \<and>
       awaits t = [AwaitTopIds, AwaitStory 42])"
proof -
  have i: "2 < length (awaits two_fetches)" "awaits two_fetches ! 2 = AwaitStory 7"
    by (simp_all add: two_fetches_awaits)
  note h = EventLoop.fetchStory_settles_own_invocation
      [OF two_fetches_reachable [unfolded keep_reducer_def] create_store_clean timeout_env_messages i,
       where v = "JStr ''story''" and e = timeout_error]
  have rm: "remove_nth 2 (awaits two_fetches) = [AwaitTopIds, AwaitStory 42]"
    by (simp add: two_fetches_awaits remove_nth_def)
  from h rm show ?thesis
    by (auto simp: keep_reducer_def timeout_env_def timeout_error_def)
qed

theorem fetchStory_rejection_error_field_witness:
  "fetchStory_resume (store_dispatcher (\<lambda>s a. s)) 42 (Rejected (Thrown (JStr ''timeout''))) fresh_host =
     (None, sys_apply (\<lambda>s a. s)
              (ac_failed fetchStory_ac (JObj [(''params'', JNum 42), (''error'', JUndefined)])) fresh_host)"
  using Dispatcher.fetchStory_rejection_error_field
      [OF fresh_host_quiet, where r = "\<lambda>s a. s" and sid = 42 and str = "''timeout''"]
  by blast

end
